theory Spec2Isabelle
  imports Main "HOL-Library.Sublist" "HOL-Library.AList" "HOL-Library.Char_ord"
begin

section \<open>Python values used by \<open>email_sender.py\<close>\<close>

text \<open>
  A Python \<open>str\<close> is a \<^typ>\<open>string\<close>; characters outside ASCII are written as their
  UTF-8 bytes. A Python \<open>dict\<close> keeps its keys in insertion order, so it is an
  association list: \<open>d[k] = v\<close> is \<^const>\<open>AList.update\<close> (the value is replaced in place
  when the key is there, the pair is appended otherwise), \<open>d[k]\<close> is \<^const>\<open>map_of\<close>
  with \<open>KeyError\<close> for \<open>None\<close>, and \<open>d.items()\<close> is the list itself.
\<close>

type_synonym 'v dict = "(string \<times> 'v) list"

text \<open>
  The exception classes the program raises or catches. \<open>Exception\<close> stands for every
  other class below Python's \<open>Exception\<close>. The string is \<open>str(e)\<close>.
\<close>

datatype exn_class =
    SMTPAuthenticationError | SMTPException | KeyError | ValueError | OverflowError
  | AttributeError | Exception

datatype exn = Raised exn_class string

text \<open>\<open>smtplib.SMTPAuthenticationError\<close> is a subclass of \<open>smtplib.SMTPException\<close>.\<close>

fun isinstance :: "exn \<Rightarrow> exn_class \<Rightarrow> bool" where
  "isinstance (Raised c m) Exception = True"
| "isinstance (Raised c m) SMTPException = (c = SMTPException \<or> c = SMTPAuthenticationError)"
| "isinstance (Raised c m) k = (c = k)"

fun str_exn :: "exn \<Rightarrow> string" where
  "str_exn (Raised c m) = m"

text \<open>\<open>str(KeyError(k))\<close> is the \<open>repr\<close> of the key.\<close>

definition key_error :: "string \<Rightarrow> exn" where
  "key_error k = Raised KeyError ([CHR 0x27] @ k @ [CHR 0x27])"

definition getitem :: "'v dict \<Rightarrow> string \<Rightarrow> exn + 'v" where
  "getitem d k = (case map_of d k of None \<Rightarrow> Inl (key_error k) | Some v \<Rightarrow> Inr v)"

text \<open>
  \<open>s.replace(old, new)\<close>: every occurrence of \<open>old\<close>, found from the left and not
  overlapping, becomes \<open>new\<close>. With an empty \<open>old\<close> Python puts \<open>new\<close> before every
  character and at the end.
\<close>

function (sequential) py_replace :: "string \<Rightarrow> string \<Rightarrow> string \<Rightarrow> string" where
  "py_replace [] old new = (if old = [] then new else [])"
| "py_replace (c # cs) old new =
     (if old = [] then new @ c # py_replace cs old new
      else if prefix old (c # cs) then new @ py_replace (drop (length old) (c # cs)) old new
      else c # py_replace cs old new)"
  by pat_completeness auto
termination
  by (relation "measure (\<lambda>(s, old, new). length s)") auto

section \<open>The configuration and the sender object\<close>

text \<open>
  \<open>config.json\<close> as the code reads it: the sections \<open>email\<close> and \<open>settings\<close> are
  dictionaries, so a key the code asks for may be missing (\<open>KeyError\<close>) and a key the
  code never asks for may be present. The \<open>smtp\<close> section is read only inside
  \<open>send_email\<close>'s \<open>try\<close> and is part of what the SMTP oracle below stands for.
\<close>

record config =
  cfg_email :: "string dict"
  cfg_settings :: "int dict"

text \<open>
  The fields of \<open>EmailSender\<close> that \<open>__init__\<close> sets once. \<open>pdf_generator\<close> is
  \<open>PDFGenerator.generate_personalized_pdf\<close>: it returns the bytes of the document or
  raises (reportlab is not part of the repository).
\<close>

record email_sender =
  config :: config
  email_template :: string
  pdf_generator :: "string dict \<Rightarrow> exn + string"

section \<open>\<open>_render_template\<close>\<close>

definition placeholder :: "string \<Rightarrow> string" where
  "placeholder key = ''{{'' @ key @ ''}}''"

text \<open>The \<open>for\<close> loop over \<open>data.items()\<close>, started with \<open>rendered = template\<close>.\<close>

definition substitute :: "string dict \<Rightarrow> string \<Rightarrow> string" where
  "substitute data template =
     fold (\<lambda>(key, value) rendered. py_replace rendered (placeholder key) value) data template"

text \<open>
  The function writes \<open>from_name\<close> into the caller's dictionary before it substitutes;
  the model returns the dictionary as the call leaves it.
\<close>

definition render_template :: "config \<Rightarrow> string \<Rightarrow> string dict \<Rightarrow> exn + (string \<times> string dict)" where
  "render_template cfg template data =
     (case getitem (cfg_email cfg) ''from_name'' of
        Inl e \<Rightarrow> Inl e
      | Inr from_name \<Rightarrow>
          let data' = AList.update ''from_name'' from_name data
          in Inr (substitute data' template, data'))"

section \<open>The world of a run\<close>

text \<open>
  What a run does to the outside is kept as a trace: every call of \<open>send_email\<close> with
  its arguments, and every \<open>time.sleep\<close> with its seconds. \<open>smtp_calls\<close> counts the
  calls of \<open>send_email\<close> so far; it is the position in the SMTP oracle. \<open>results\<close>
  is \<open>self.results\<close>, and \<open>logged\<close> is what went to \<open>self.logger\<close>.
  The \<open>timestamp\<close> of a result (the wall clock) is left out.
\<close>

datatype effect =
    Send_email string string string "string option" string
  | Sleep int

datatype level = INFO | ERROR

record result =
  email :: string
  nombre :: string
  status :: string
  error :: "string option"

record state =
  results :: "result list"
  logged :: "(level \<times> string) list"
  trace :: "effect list"
  smtp_calls :: nat

definition logger :: "level \<Rightarrow> string \<Rightarrow> state \<Rightarrow> state" where
  "logger lv msg st = st\<lparr>logged := logged st @ [(lv, msg)]\<rparr>"

text \<open>
  \<open>time.sleep\<close> raises \<open>ValueError\<close> for a negative length and \<open>OverflowError\<close> for a
  length that does not fit its C type. CPython 3.11 keeps the length as a count of
  nanoseconds in 64 bits, which ends at 9223372036 seconds; other versions and systems
  stop earlier (the earliest at 4294967 seconds, the milliseconds of 32 bits), and a
  length within the uptime of the machine of the limit is refused by the system. The
  model has the limit of the 64 bits; \<open>max_delay\<close> is the length that every one of them
  accepts.
\<close>

definition sleep_limit :: int where
  "sleep_limit = 9223372036"

definition max_delay :: int where
  "max_delay = 4294967"

definition sleep :: "int \<Rightarrow> state \<Rightarrow> exn + state" where
  "sleep secs st =
     (if secs < 0 then Inl (Raised ValueError ''sleep length must be non-negative'')
      else if sleep_limit < secs then
        Inl (Raised OverflowError ''timestamp too large to convert to C _PyTime_t'')
      else Inr (st\<lparr>trace := trace st @ [Sleep secs]\<rparr>))"

section \<open>\<open>send_email\<close>\<close>

text \<open>The check mark U+2705 and the cross U+274C of the log lines, and the texts with an accent.\<close>

definition ok_mark :: string where
  "ok_mark = [CHR 0xE2, CHR 0x9C, CHR 0x85]"

definition x_mark :: string where
  "x_mark = [CHR 0xE2, CHR 0x9D, CHR 0x8C]"

definition Error_de_autenticacion :: string where
  "Error_de_autenticacion = ''Error de autenticaci'' @ [CHR 0xC3, CHR 0xB3] @ ''n: ''"

definition Exito :: string where
  "Exito = [CHR 0xC3, CHR 0x89] @ ''xito''"

text \<open>
  The whole body of \<open>send_email\<close> is one \<open>try\<close>. The oracle \<open>smtp\<close> says what the body of
  the \<open>n\<close>-th call does: \<open>None\<close> when it runs to \<open>return True, None\<close>, \<open>Some e\<close> when it
  raises \<open>e\<close> (an instance of \<open>Exception\<close>) on the way. The three \<open>except\<close> clauses are
  tried in the order of the source.
\<close>

definition send_email ::
  "(nat \<Rightarrow> exn option) \<Rightarrow> string \<Rightarrow> string \<Rightarrow> string \<Rightarrow> string option \<Rightarrow> string \<Rightarrow> state
    \<Rightarrow> (bool \<times> string option) \<times> state" where
  "send_email smtp to_email subject html_body pdf_data pdf_filename st =
     (let st1 = st\<lparr>trace := trace st @ [Send_email to_email subject html_body pdf_data pdf_filename],
                    smtp_calls := Suc (smtp_calls st)\<rparr>
      in case smtp (smtp_calls st) of
           None \<Rightarrow> ((True, None), logger INFO (ok_mark @ '' Email enviado a: '' @ to_email) st1)
         | Some e \<Rightarrow>
             if isinstance e SMTPAuthenticationError then
               (let error = Error_de_autenticacion @ str_exn e
                in ((False, Some error), logger ERROR (x_mark @ '' '' @ error @ '' - '' @ to_email) st1))
             else if isinstance e SMTPException then
               (let error = ''Error SMTP: '' @ str_exn e
                in ((False, Some error), logger ERROR (x_mark @ '' '' @ error @ '' - '' @ to_email) st1))
             else
               (let error = ''Error inesperado: '' @ str_exn e
                in ((False, Some error), logger ERROR (x_mark @ '' '' @ error @ '' - '' @ to_email) st1)))"

section \<open>\<open>send_bulk_emails\<close>\<close>

subsection \<open>The attachment (lines 285 to 295)\<close>

definition safe_pdf_name :: "string dict \<Rightarrow> string" where
  "safe_pdf_name data =
     py_replace (py_replace (py_replace
       (case map_of data ''nombre_pdf'' of None \<Rightarrow> ''documento'' | Some t \<Rightarrow> t)
       ''/'' ''_'') [CHR 0x5C] ''_'') '':'' ''_''"

definition safe_nombre :: "string \<Rightarrow> string" where
  "safe_nombre n =
     py_replace (py_replace (py_replace (py_replace n '' '' ''_'') ''/'' ''_'') [CHR 0x5C] ''_'') '':'' ''_''"

text \<open>
  The \<open>try\<close> holds the call of the generator and the two sanitised names, in this order;
  \<open>data['nombre']\<close> may raise \<open>KeyError\<close> there. The handler reads \<open>data['email']\<close> for
  its log line, outside any \<open>try\<close>.
\<close>

definition generate_pdf ::
  "email_sender \<Rightarrow> string dict \<Rightarrow> state \<Rightarrow> exn + ((string option \<times> string) \<times> state)" where
  "generate_pdf self data st =
     (case (case pdf_generator self data of
              Inl e \<Rightarrow> Inl e
            | Inr pdf_data \<Rightarrow>
                (case getitem data ''nombre'' of
                   Inl e \<Rightarrow> Inl e
                 | Inr n \<Rightarrow> Inr (Some pdf_data, safe_pdf_name data @ ''_'' @ safe_nombre n @ ''.pdf''))) of
        Inr r \<Rightarrow> Inr (r, st)
      | Inl e \<Rightarrow>
          (case getitem data ''email'' of
             Inl e' \<Rightarrow> Inl e'
           | Inr to_email \<Rightarrow>
               Inr ((None, ''documento.pdf''),
                    logger ERROR (''Error generando PDF para '' @ to_email @ '': '' @ str_exn e) st)))"

subsection \<open>The retry loop (lines 302 to 319)\<close>

definition py_range :: "int \<Rightarrow> int list" where
  "py_range n = map int [0..<nat n]"

fun attempts_loop ::
  "(nat \<Rightarrow> exn option) \<Rightarrow> string dict \<Rightarrow> string \<Rightarrow> string \<Rightarrow> string option \<Rightarrow> string \<Rightarrow> int
    \<Rightarrow> int list \<Rightarrow> bool \<times> string option \<Rightarrow> state \<Rightarrow> exn + ((bool \<times> string option) \<times> state)" where
  "attempts_loop smtp data subject html_body pdf_data pdf_filename max_retries [] r st = Inr (r, st)"
| "attempts_loop smtp data subject html_body pdf_data pdf_filename max_retries (attempt # rest) r st =
     (case getitem data ''email'' of
        Inl e \<Rightarrow> Inl e
      | Inr to_email \<Rightarrow>
          (case send_email smtp to_email subject html_body pdf_data pdf_filename st of
             ((success, error_msg), st1) \<Rightarrow>
               if success then Inr ((success, error_msg), st1)
               else if attempt < max_retries - 1 then
                 (case sleep 2 st1 of
                    Inl e \<Rightarrow> Inl e
                  | Inr st2 \<Rightarrow>
                      attempts_loop smtp data subject html_body pdf_data pdf_filename max_retries
                        rest (success, error_msg) st2)
               else
                 attempts_loop smtp data subject html_body pdf_data pdf_filename max_retries
                   rest (success, error_msg) st1))"

subsection \<open>One recipient (the body of the \<open>for\<close> loop)\<close>

text \<open>\<open>row.to_dict()\<close> and the comprehension that turns \<open>NaN\<close> (here \<open>None\<close>) into \<open>''\<close>.\<close>

definition to_dict :: "string list \<Rightarrow> 'a list \<Rightarrow> 'a dict" where
  "to_dict cols cells = fold (\<lambda>(k, v) d. AList.update k v d) (zip cols cells) []"

definition fillna :: "string option dict \<Rightarrow> string dict" where
  "fillna d = map (\<lambda>(k, v). (k, case v of None \<Rightarrow> [] | Some s \<Rightarrow> s)) d"

text \<open>Lines 285 to 329: attachment, the two renderings, the attempts, the result.\<close>

definition deliver_row ::
  "email_sender \<Rightarrow> (nat \<Rightarrow> exn option) \<Rightarrow> string dict \<Rightarrow> state \<Rightarrow> exn + (bool \<times> state)" where
  "deliver_row self smtp data st =
     (case generate_pdf self data st of
        Inl e \<Rightarrow> Inl e
      | Inr ((pdf_data, pdf_filename), st1) \<Rightarrow>
     case render_template (config self) (email_template self) data of
        Inl e \<Rightarrow> Inl e
      | Inr (html_body, data1) \<Rightarrow>
     case getitem (cfg_email (config self)) ''subject'' of
        Inl e \<Rightarrow> Inl e
      | Inr subject_template \<Rightarrow>
     case render_template (config self) subject_template data1 of
        Inl e \<Rightarrow> Inl e
      | Inr (subject, data2) \<Rightarrow>
     case getitem (cfg_settings (config self)) ''max_retries'' of
        Inl e \<Rightarrow> Inl e
      | Inr max_retries \<Rightarrow>
     case attempts_loop smtp data2 subject html_body pdf_data pdf_filename max_retries
            (py_range max_retries) (False, None) st1 of
        Inl e \<Rightarrow> Inl e
      | Inr ((success, error_msg), st2) \<Rightarrow>
     case getitem data2 ''email'' of
        Inl e \<Rightarrow> Inl e
      | Inr to_email \<Rightarrow>
     case getitem data2 ''nombre'' of
        Inl e \<Rightarrow> Inl e
      | Inr n \<Rightarrow>
          Inr (success,
               st2\<lparr>results := results st2 @
                 [\<lparr>email = to_email, nombre = n,
                   status = (if success then Exito else ''Error''),
                   error = (if \<not> success then error_msg else Some [])\<rparr>]\<rparr>))"

text \<open>
  The whole body: a row of \<open>df.iterrows()\<close> is the index label \<open>idx\<close> and the cells; the
  counters are updated, and the delay is taken when \<open>idx < total - 1\<close> (\<open>ntotal\<close> is
  the local \<open>total\<close>).
\<close>

definition process_row ::
  "email_sender \<Rightarrow> (nat \<Rightarrow> exn option) \<Rightarrow> string list \<Rightarrow> int \<Rightarrow> int \<times> string option list
    \<Rightarrow> int \<times> int \<times> state \<Rightarrow> exn + (int \<times> int \<times> state)" where
  "process_row self smtp cols ntotal r acc =
     (case r of (idx, row) \<Rightarrow>
      case acc of (success_count, failed_count, st) \<Rightarrow>
      case deliver_row self smtp (fillna (to_dict cols row)) st of
        Inl e \<Rightarrow> Inl e
      | Inr (success, st1) \<Rightarrow>
          let success_count' = (if success then success_count + 1 else success_count);
              failed_count' = (if success then failed_count else failed_count + 1)
          in if idx < ntotal - 1 then
               (case getitem (cfg_settings (config self)) ''delay_between_emails'' of
                  Inl e \<Rightarrow> Inl e
                | Inr delay \<Rightarrow>
                    (case sleep delay st1 of
                       Inl e \<Rightarrow> Inl e
                     | Inr st2 \<Rightarrow> Inr (success_count', failed_count', st2)))
             else Inr (success_count', failed_count', st1))"

subsection \<open>The run\<close>

text \<open>
  A \<open>DataFrame\<close>: the column names, and the rows in order, each with its index label.
  A cell is a string, or \<open>None\<close> for \<open>NaN\<close>; cells of other types are not modelled.
\<close>

record dataframe =
  columns :: "string list"
  rows :: "(int \<times> string option list) list"

record stats =
  total :: int
  success :: int
  failed :: int

fun send_loop ::
  "email_sender \<Rightarrow> (nat \<Rightarrow> exn option) \<Rightarrow> string list \<Rightarrow> int \<Rightarrow> (int \<times> string option list) list
    \<Rightarrow> int \<times> int \<times> state \<Rightarrow> exn + (int \<times> int \<times> state)" where
  "send_loop self smtp cols ntotal [] acc = Inr acc"
| "send_loop self smtp cols ntotal (r # rs) acc =
     (case process_row self smtp cols ntotal r acc of
        Inl e \<Rightarrow> Inl e
      | Inr acc' \<Rightarrow> send_loop self smtp cols ntotal rs acc')"

text \<open>
  When an exception leaves the loop the model returns the exception alone; the state it
  leaves behind is not kept.
\<close>

definition send_bulk_emails ::
  "email_sender \<Rightarrow> (nat \<Rightarrow> exn option) \<Rightarrow> dataframe \<Rightarrow> bool \<Rightarrow> state \<Rightarrow> exn + (stats \<times> state)" where
  "send_bulk_emails self smtp df preview_mode st =
     (let df = (if preview_mode then df\<lparr>rows := take 1 (rows df)\<rparr> else df);
          ntotal = int (length (rows df))
      in case send_loop self smtp (columns df) ntotal (rows df) (0, 0, st) of
           Inl e \<Rightarrow> Inl e
         | Inr (success_count, failed_count, st') \<Rightarrow>
             Inr (\<lparr>total = ntotal, success = success_count, failed = failed_count\<rparr>, st'))"

subsection \<open>\<open>load_excel\<close>\<close>

text \<open>
  What \<open>pd.read_excel\<close> returns for a sheet with the header \<open>cols\<close> and the rows
  \<open>table\<close>: the index labels are \<open>0, 1, 2, ...\<close>.
\<close>

definition read_excel :: "string list \<Rightarrow> string option list list \<Rightarrow> dataframe" where
  "read_excel cols table = \<lparr>columns = cols, rows = zip (map int [0..<length table]) table\<rparr>"

text \<open>
  The pattern \<open>^[a-zA-Z0-9._%+\-]+@[a-zA-Z0-9.\-]+\.[a-zA-Z]{2,}$\<close> under \<open>re.match\<close>.
  The first class has no \<open>@\<close>, so the local part ends at the first \<open>@\<close>; the last class
  has no dot, so the last part starts after the last dot. \<open>$\<close> also matches before a
  newline that ends the string.
\<close>

definition alpha :: "char \<Rightarrow> bool" where
  "alpha c \<longleftrightarrow> (CHR ''a'' \<le> c \<and> c \<le> CHR ''z'') \<or> (CHR ''A'' \<le> c \<and> c \<le> CHR ''Z'')"

definition alnum :: "char \<Rightarrow> bool" where
  "alnum c \<longleftrightarrow> alpha c \<or> (CHR ''0'' \<le> c \<and> c \<le> CHR ''9'')"

definition local_char :: "char \<Rightarrow> bool" where
  "local_char c \<longleftrightarrow> alnum c \<or> c \<in> set ''._%+-''"

definition domain_char :: "char \<Rightarrow> bool" where
  "domain_char c \<longleftrightarrow> alnum c \<or> c \<in> set ''.-''"

definition full_match :: "string \<Rightarrow> bool" where
  "full_match s =
     (let lp = takeWhile (\<lambda>c. c \<noteq> CHR ''@'') s;
          rest = drop (Suc (length lp)) s;
          tld = rev (takeWhile (\<lambda>c. c \<noteq> CHR ''.'') (rev rest));
          dp = take (length rest - Suc (length tld)) rest
      in length lp < length s \<and> length tld < length rest \<and>
         lp \<noteq> [] \<and> list_all local_char lp \<and>
         dp \<noteq> [] \<and> list_all domain_char dp \<and>
         2 \<le> length tld \<and> list_all alpha tld)"

text \<open>
  What the pattern says, without the anchors: a local part, \<open>@\<close>, a domain, a dot and
  at least two letters. \<open>full_match\<close> decides it (lemma \<open>full_match_iff\<close> below).
\<close>

definition pattern_says :: "string \<Rightarrow> bool" where
  "pattern_says s \<longleftrightarrow>
     (\<exists>lp dp tld. s = lp @ ''@'' @ dp @ ''.'' @ tld \<and>
        lp \<noteq> [] \<and> list_all local_char lp \<and>
        dp \<noteq> [] \<and> list_all domain_char dp \<and>
        2 \<le> length tld \<and> list_all alpha tld)"

definition email_match :: "string \<Rightarrow> bool" where
  "email_match s \<longleftrightarrow> full_match s \<or> (s \<noteq> [] \<and> last s = CHR 0x0A \<and> full_match (butlast s))"

text \<open>The \<open>repr\<close> of a list of plain column names, for the message of the \<open>ValueError\<close>.\<close>

fun join_repr :: "string list \<Rightarrow> string" where
  "join_repr [] = []"
| "join_repr [x] = [CHR 0x27] @ x @ [CHR 0x27]"
| "join_repr (x # y # ys) = [CHR 0x27] @ x @ [CHR 0x27] @ '', '' @ join_repr (y # ys)"

text \<open>
  \<open>load_excel\<close> on the frame that \<open>pd.read_excel\<close> gave it: rows whose \<open>email\<close> does
  not match (\<open>na=False\<close>: a missing cell does not match) are dropped, and the rows
  that stay keep their index labels. A column with rows and no string in it is not a
  column of strings for pandas, and \<open>.str\<close> raises \<open>AttributeError\<close>. The log lines of
  \<open>load_excel\<close> are left out.
\<close>

definition is_str :: "string option option \<Rightarrow> bool" where
  "is_str cell = (case cell of Some (Some e) \<Rightarrow> True | _ \<Rightarrow> False)"

definition load_excel :: "dataframe \<Rightarrow> exn + dataframe" where
  "load_excel df =
     (let missing_columns = filter (\<lambda>col. col \<notin> set (columns df)) [''email'', ''nombre''] in
      if missing_columns \<noteq> [] then
        Inl (Raised ValueError
              (x_mark @ '' Columnas faltantes en Excel: ['' @ join_repr missing_columns @ '']''))
      else if rows df \<noteq> [] \<and>
              \<not> list_ex (\<lambda>(idx, row). is_str (map_of (to_dict (columns df) row) ''email'')) (rows df)
      then Inl (Raised AttributeError ''Can only use .str accessor with string values!'')
      else
        let matches = (\<lambda>(idx, row). case map_of (to_dict (columns df) row) ''email'' of
                                      Some (Some e) \<Rightarrow> email_match e
                                    | _ \<Rightarrow> False);
            invalid_emails = filter (\<lambda>r. \<not> matches r) (rows df)
        in if invalid_emails \<noteq> [] then Inr (df\<lparr>rows := filter matches (rows df)\<rparr>) else Inr df)"

section \<open>Notions of the statements\<close>

text \<open>The detail string that the three handlers of \<open>send_email\<close> build from the exception.\<close>

definition error_detail :: "exn \<Rightarrow> string" where
  "error_detail e =
     (if isinstance e SMTPAuthenticationError then Error_de_autenticacion @ str_exn e
      else if isinstance e SMTPException then ''Error SMTP: '' @ str_exn e
      else ''Error inesperado: '' @ str_exn e)"

text \<open>
  The error classes of the specification, read off the class of the exception: an
  authentication failure, another failure of the SMTP protocol, anything else; and the
  words by which the returned detail names each class.
\<close>

datatype error_class = AuthError | TransportError | UnexpectedError

fun error_class_of :: "exn \<Rightarrow> error_class" where
  "error_class_of (Raised SMTPAuthenticationError m) = AuthError"
| "error_class_of (Raised SMTPException m) = TransportError"
| "error_class_of (Raised c m) = UnexpectedError"

fun class_words :: "error_class \<Rightarrow> string" where
  "class_words AuthError = Error_de_autenticacion"
| "class_words TransportError = ''Error SMTP: ''"
| "class_words UnexpectedError = ''Error inesperado: ''"

text \<open>
  A configuration with the keys that a run reads, and a delay that is not negative.
\<close>

definition config_ok :: "config \<Rightarrow> bool" where
  "config_ok cfg \<longleftrightarrow>
     map_of (cfg_email cfg) ''from_name'' \<noteq> None \<and>
     map_of (cfg_email cfg) ''subject'' \<noteq> None \<and>
     map_of (cfg_settings cfg) ''max_retries'' \<noteq> None \<and>
     (case map_of (cfg_settings cfg) ''delay_between_emails'' of None \<Rightarrow> False | Some d \<Rightarrow> 0 \<le> d)"

text \<open>A configured delay that \<open>time.sleep\<close> accepts wherever the program runs.\<close>

definition delay_accepted :: "config \<Rightarrow> bool" where
  "delay_accepted cfg \<longleftrightarrow>
     (case map_of (cfg_settings cfg) ''delay_between_emails'' of
        None \<Rightarrow> False
      | Some d \<Rightarrow> d \<le> max_delay)"

text \<open>
  A frame with the two required columns (what \<open>load_excel\<close> checks) in which every row
  has one cell for each column.
\<close>

definition dataframe_ok :: "dataframe \<Rightarrow> bool" where
  "dataframe_ok df \<longleftrightarrow>
     ''email'' \<in> set (columns df) \<and> ''nombre'' \<in> set (columns df) \<and>
     list_all (\<lambda>r. length (snd r) = length (columns df)) (rows df)"

text \<open>The value of a column in a row, as the loop body sees it after \<open>NaN\<close> became \<open>''\<close>.\<close>

definition field :: "string list \<Rightarrow> string option list \<Rightarrow> string \<Rightarrow> string" where
  "field cols row k = (case map_of (fillna (to_dict cols row)) k of None \<Rightarrow> [] | Some v \<Rightarrow> v)"

text \<open>The rows that a run goes through: the first one alone in preview mode.\<close>

definition processed :: "dataframe \<Rightarrow> bool \<Rightarrow> (int \<times> string option list) list" where
  "processed df preview_mode = (if preview_mode then take 1 (rows df) else rows df)"

text \<open>
  A template cut into segments: single characters, braces among them, and placeholders
  \<open>{{key}}\<close>. \<open>fill\<close> puts the value of a key in the place of each of its
  placeholders, all at once, and leaves a placeholder without a value as it is.
\<close>

definition plain :: "string \<Rightarrow> bool" where
  "plain s \<longleftrightarrow> list_all (\<lambda>c. c \<noteq> CHR ''{'' \<and> c \<noteq> CHR ''}'') s"

datatype segment = Literal char | Field string

fun seg_text :: "segment \<Rightarrow> string" where
  "seg_text (Literal c) = [c]"
| "seg_text (Field k) = placeholder k"

definition flatten :: "segment list \<Rightarrow> string" where
  "flatten segs = concat (map seg_text segs)"

text \<open>
  The templates in which filling placeholders cannot make a new placeholder. The keys
  of the placeholders have no brace, and nowhere do the characters outside the
  placeholders go like this: an opening brace, a second one after at most
  placeholders, then characters that are no braces and placeholders, a closing brace
  and, after at most placeholders, a second closing brace. (With no placeholder in
  it, such a stretch is itself a placeholder and is to be cut as one.) Single braces,
  as in a style sheet, and double braces that are not closed are allowed.
\<close>

fun second_close :: "segment list \<Rightarrow> bool" where
  "second_close [] = False"
| "second_close (Field k # r) = second_close r"
| "second_close (Literal c # r) = (c = CHR ''}'')"

fun closes_key :: "segment list \<Rightarrow> bool" where
  "closes_key [] = False"
| "closes_key (Field k # r) = closes_key r"
| "closes_key (Literal c # r) =
     (if c = CHR ''}'' then second_close r else if c = CHR ''{'' then False else closes_key r)"

fun second_open :: "segment list \<Rightarrow> bool" where
  "second_open [] = False"
| "second_open (Field k # r) = second_open r"
| "second_open (Literal c # r) = (c = CHR ''{'' \<and> closes_key r)"

fun stable :: "segment list \<Rightarrow> bool" where
  "stable [] = True"
| "stable (Field k # r) = (plain k \<and> stable r)"
| "stable (Literal c # r) = ((c = CHR ''{'' \<longrightarrow> \<not> second_open r) \<and> stable r)"

fun fill_seg :: "(string \<rightharpoonup> string) \<Rightarrow> segment \<Rightarrow> string" where
  "fill_seg m (Literal c) = [c]"
| "fill_seg m (Field k) = (case m k of None \<Rightarrow> placeholder k | Some v \<Rightarrow> v)"

definition fill :: "(string \<rightharpoonup> string) \<Rightarrow> segment list \<Rightarrow> string" where
  "fill m segs = concat (map (fill_seg m) segs)"

text \<open>
  One step of the loop of \<open>substitute\<close> seen on the segments: the placeholders of \<open>k\<close>
  become the characters of \<open>v\<close>.
\<close>

fun subst_seg :: "string \<Rightarrow> string \<Rightarrow> segment \<Rightarrow> segment list" where
  "subst_seg k v (Literal c) = [Literal c]"
| "subst_seg k v (Field k') = (if k' = k then map Literal v else [Field k'])"

definition subst :: "string \<Rightarrow> string \<Rightarrow> segment list \<Rightarrow> segment list" where
  "subst k v segs = concat (map (subst_seg k v) segs)"

text \<open>What a call did to the outside, when it returned.\<close>

definition run_trace :: "exn + ('a \<times> state) \<Rightarrow> exn + effect list" where
  "run_trace r = (case r of Inl e \<Rightarrow> Inl e | Inr (x, st) \<Rightarrow> Inr (trace st))"

definition run_value :: "exn + ('a \<times> state) \<Rightarrow> exn + 'a" where
  "run_value r = (case r of Inl e \<Rightarrow> Inl e | Inr (x, st) \<Rightarrow> Inr x)"

text \<open>A dictionary whose keys and values have no brace.\<close>

definition dict_plain :: "string dict \<Rightarrow> bool" where
  "dict_plain d \<longleftrightarrow> list_all (\<lambda>kv. plain (fst kv) \<and> plain (snd kv)) d"

text \<open>The state before a run.\<close>

definition start :: state where
  "start = \<lparr>results = [], logged = [], trace = [], smtp_calls = 0\<rparr>"

text \<open>
  Concrete inputs for the examples: a configuration with three attempts, a sender whose
  generator always succeeds and one whose generator always fails, and a recipient.
\<close>

definition demo_config :: config where
  "demo_config =
     \<lparr>cfg_email = [(''from_name'', ''Bob''), (''subject'', ''Hola {{nombre}}'')],
      cfg_settings = [(''max_retries'', 3), (''delay_between_emails'', 1)]\<rparr>"

definition demo_sender :: email_sender where
  "demo_sender =
     \<lparr>config = demo_config, email_template = ''<p>{{nombre}}: {{from_name}}</p>'',
      pdf_generator = (\<lambda>data. Inr ''%PDF'')\<rparr>"

definition failing_sender :: email_sender where
  "failing_sender = demo_sender\<lparr>pdf_generator := (\<lambda>data. Inl (Raised ValueError ''bad markup''))\<rparr>"

definition ana :: "string dict" where
  "ana = [(''email'', ''ana@x.co''), (''nombre'', ''Ana'')]"

text \<open>An SMTP server that refuses the first \<open>k\<close> connections and accepts every later one.\<close>

definition refuse_first :: "nat \<Rightarrow> nat \<Rightarrow> exn option" where
  "refuse_first k n = (if n < k then Some (Raised SMTPException ''421'') else None)"

text \<open>The sender again, with a setting \<open>retryBackoffSeconds\<close> of 7 in its configuration.\<close>

definition backoff_sender :: email_sender where
  "backoff_sender =
     demo_sender\<lparr>config := demo_config\<lparr>cfg_settings :=
       [(''max_retries'', 3), (''delay_between_emails'', 1), (''retryBackoffSeconds'', 7)]\<rparr>\<rparr>"

text \<open>The sender with a delay of \<open>10^10\<close> seconds between recipients.\<close>

definition slow_sender :: email_sender where
  "slow_sender =
     demo_sender\<lparr>config := demo_config\<lparr>cfg_settings :=
       [(''max_retries'', 3), (''delay_between_emails'', 10000000000)]\<rparr>\<rparr>"

text \<open>A template with a style rule in front of two placeholders.\<close>

definition styled_template :: "segment list" where
  "styled_template =
     map Literal ''<style>p{color:red}</style>'' @ [Field ''ciudad'', Literal CHR ''-'', Field ''nombre'']"

text \<open>A sheet of two rows, and a sheet of three rows whose first address is not valid.\<close>

definition valid_sheet :: dataframe where
  "valid_sheet =
     read_excel [''email'', ''nombre'']
       [[Some ''ana@x.co'', Some ''Ana''],
        [Some ''luis@x.co'', Some ''Luis'']]"

definition demo_sheet :: dataframe where
  "demo_sheet =
     read_excel [''email'', ''nombre'']
       [[Some ''not-an-email'', Some ''Eva''],
        [Some ''ana@x.co'', Some ''Ana''],
        [Some ''luis@x.co'', Some ''Luis'']]"

declare attempts_loop.simps [simp del]

lemma py_replace_char:
  "py_replace s [c] new = concat (map (\<lambda>x. if x = c then new else [x]) s)"
  by (induction s) auto

lemma py_replace_char_underscore:
  "py_replace s [c] ''_'' = map (\<lambda>x. if x = c then CHR ''_'' else x) s"
  by (induction s) auto

lemma getitem_Some: "map_of d k = Some v \<Longrightarrow> getitem d k = Inr v"
  by (simp add: getitem_def)

lemma getitem_None: "map_of d k = None \<Longrightarrow> getitem d k = Inl (key_error k)"
  by (simp add: getitem_def)

lemma send_email_ok:
  "smtp (smtp_calls st) = None \<Longrightarrow>
   send_email smtp to_email subject html_body pdf_data pdf_filename st =
     ((True, None),
      st\<lparr>trace := trace st @ [Send_email to_email subject html_body pdf_data pdf_filename],
         smtp_calls := Suc (smtp_calls st),
         logged := logged st @ [(INFO, ok_mark @ '' Email enviado a: '' @ to_email)]\<rparr>)"
  by (simp add: send_email_def logger_def)

lemma send_email_fail:
  "smtp (smtp_calls st) = Some e \<Longrightarrow>
   send_email smtp to_email subject html_body pdf_data pdf_filename st =
     ((False, Some (error_detail e)),
      st\<lparr>trace := trace st @ [Send_email to_email subject html_body pdf_data pdf_filename],
         smtp_calls := Suc (smtp_calls st),
         logged := logged st @ [(ERROR, x_mark @ '' '' @ error_detail e @ '' - '' @ to_email)]\<rparr>)"
  by (simp add: send_email_def logger_def error_detail_def Let_def)

lemma sleep_ok:
  "0 \<le> s \<Longrightarrow> s \<le> sleep_limit \<Longrightarrow> sleep s st = Inr (st\<lparr>trace := trace st @ [Sleep s]\<rparr>)"
  by (simp add: sleep_def)

lemma sleep_two: "sleep 2 st = Inr (st\<lparr>trace := trace st @ [Sleep 2]\<rparr>)"
  by (simp add: sleep_def sleep_limit_def)

text \<open>One failed attempt of the loop, followed by the backoff or not.\<close>

lemma attempts_loop_fail_step:
  assumes "map_of data ''email'' = Some to_email" and "smtp (smtp_calls st) = Some e"
  shows "\<exists>st2. attempts_loop smtp data subject html_body pdf_data pdf_filename m (a # rest) r st =
           attempts_loop smtp data subject html_body pdf_data pdf_filename m rest
             (False, Some (error_detail e)) st2 \<and>
         results st2 = results st \<and> smtp_calls st2 = Suc (smtp_calls st) \<and>
         prefix (logged st) (logged st2) \<and>
         trace st2 = trace st @ Send_email to_email subject html_body pdf_data pdf_filename #
                       (if a < m - 1 then [Sleep 2] else [])"
proof -
  let ?st1 = "snd (send_email smtp to_email subject html_body pdf_data pdf_filename st)"
  show ?thesis
  proof (cases "a < m - 1")
    case True
    show ?thesis
      by (rule exI[of _ "?st1\<lparr>trace := trace ?st1 @ [Sleep 2]\<rparr>"])
         (use assms True in \<open>simp add: attempts_loop.simps getitem_Some send_email_fail sleep_two\<close>)
  next
    case False
    show ?thesis
      by (rule exI[of _ ?st1])
         (use assms False in \<open>simp add: attempts_loop.simps getitem_Some send_email_fail\<close>)
  qed
qed

lemma attempts_loop_ok_step:
  assumes "map_of data ''email'' = Some to_email" and "smtp (smtp_calls st) = None"
  shows "\<exists>st1. attempts_loop smtp data subject html_body pdf_data pdf_filename m (a # rest) r st =
           Inr ((True, None), st1) \<and>
         results st1 = results st \<and> smtp_calls st1 = Suc (smtp_calls st) \<and>
         prefix (logged st) (logged st1) \<and>
         trace st1 = trace st @ [Send_email to_email subject html_body pdf_data pdf_filename]"
  using assms by (simp add: attempts_loop.simps getitem_Some send_email_ok)

lemma attempts_loop_success:
  assumes em: "map_of data ''email'' = Some to_email"
  shows "k < length atts \<Longrightarrow> \<forall>i<k. smtp (smtp_calls st + i) \<noteq> None \<Longrightarrow>
    smtp (smtp_calls st + k) = None \<Longrightarrow> \<forall>i<k. atts ! i < m - 1 \<Longrightarrow>
    \<exists>st'. attempts_loop smtp data subject html_body pdf_data pdf_filename m atts r st
            = Inr ((True, None), st') \<and>
          trace st' = trace st @
            concat (replicate k [Send_email to_email subject html_body pdf_data pdf_filename, Sleep 2]) @
            [Send_email to_email subject html_body pdf_data pdf_filename] \<and>
          smtp_calls st' = smtp_calls st + k + 1 \<and> results st' = results st"
proof (induction k arbitrary: atts r st)
  case 0
  then obtain a rest where atts: "atts = a # rest" by (cases atts) auto
  from 0 have "smtp (smtp_calls st) = None" by simp
  from attempts_loop_ok_step[where smtp=smtp and st=st, OF em this,
      of subject html_body pdf_data pdf_filename m a rest r]
  show ?case
    unfolding atts by auto
next
  case (Suc k)
  then obtain a rest where atts: "atts = a # rest" by (cases atts) auto
  have "smtp (smtp_calls st + 0) \<noteq> None" using Suc.prems(2)[rule_format, of 0] by simp
  then obtain e where e: "smtp (smtp_calls st) = Some e" by auto
  have a: "a < m - 1" using Suc.prems(4)[rule_format, of 0] atts by simp
  from attempts_loop_fail_step[where smtp=smtp and st=st, OF em e, of subject html_body pdf_data pdf_filename m a rest r] a
  obtain st2 where step: "attempts_loop smtp data subject html_body pdf_data pdf_filename m atts r st =
      attempts_loop smtp data subject html_body pdf_data pdf_filename m rest (False, Some (error_detail e)) st2"
    and st2: "results st2 = results st" "smtp_calls st2 = Suc (smtp_calls st)"
      "trace st2 = trace st @ [Send_email to_email subject html_body pdf_data pdf_filename, Sleep 2]"
    unfolding atts by auto
  have 1: "k < length rest" using Suc.prems(1) atts by simp
  have 2: "\<forall>i<k. smtp (smtp_calls st2 + i) \<noteq> None"
  proof (intro allI impI)
    fix i assume "i < k"
    then have "smtp (smtp_calls st + Suc i) \<noteq> None" using Suc.prems(2)[rule_format, of "Suc i"] by simp
    then show "smtp (smtp_calls st2 + i) \<noteq> None" by (simp add: st2)
  qed
  have 3: "smtp (smtp_calls st2 + k) = None" using Suc.prems(3) by (simp add: st2)
  have 4: "\<forall>i<k. rest ! i < m - 1"
  proof (intro allI impI)
    fix i assume "i < k"
    then have "atts ! Suc i < m - 1" using Suc.prems(4)[rule_format, of "Suc i"] by simp
    then show "rest ! i < m - 1" by (simp add: atts)
  qed
  from Suc.IH[OF 1 2 3 4, of "(False, Some (error_detail e))"]
  show ?case
    unfolding step by (auto simp: st2)
qed

lemma attempts_loop_exhausted:
  assumes em: "map_of data ''email'' = Some to_email"
  shows "atts \<noteq> [] \<Longrightarrow> \<forall>i<length atts. smtp (smtp_calls st + i) \<noteq> None \<Longrightarrow>
    \<forall>i<length atts. (atts ! i < m - 1) = (Suc i < length atts) \<Longrightarrow>
    \<exists>st' e. smtp (smtp_calls st + (length atts - 1)) = Some e \<and>
          attempts_loop smtp data subject html_body pdf_data pdf_filename m atts r st
            = Inr ((False, Some (error_detail e)), st') \<and>
          trace st' = trace st @
            concat (replicate (length atts - 1) [Send_email to_email subject html_body pdf_data pdf_filename, Sleep 2]) @
            [Send_email to_email subject html_body pdf_data pdf_filename] \<and>
          smtp_calls st' = smtp_calls st + length atts \<and> results st' = results st"
proof (induction atts arbitrary: r st)
  case Nil
  then show ?case by simp
next
  case (Cons a rest)
  have "smtp (smtp_calls st + 0) \<noteq> None" using Cons.prems(2)[rule_format, of 0] by simp
  then obtain e where e: "smtp (smtp_calls st) = Some e" by auto
  from attempts_loop_fail_step[where smtp=smtp and st=st, OF em e, of subject html_body pdf_data pdf_filename m a rest r]
  obtain st2 where step: "attempts_loop smtp data subject html_body pdf_data pdf_filename m (a # rest) r st =
      attempts_loop smtp data subject html_body pdf_data pdf_filename m rest (False, Some (error_detail e)) st2"
    and st2: "results st2 = results st" "smtp_calls st2 = Suc (smtp_calls st)"
      "trace st2 = trace st @ Send_email to_email subject html_body pdf_data pdf_filename #
                       (if a < m - 1 then [Sleep 2] else [])"
    by auto
  have a: "(a < m - 1) = (rest \<noteq> [])" using Cons.prems(3)[rule_format, of 0] by simp
  show ?case
  proof (cases rest)
    case Nil
    then show ?thesis
      unfolding step using e a st2 by (simp add: attempts_loop.simps)
  next
    case (Cons b rest')
    have 1: "rest \<noteq> []" using Cons by simp
    have 2: "\<forall>i<length rest. smtp (smtp_calls st2 + i) \<noteq> None"
    proof (intro allI impI)
      fix i assume "i < length rest"
      then have "smtp (smtp_calls st + Suc i) \<noteq> None" using Cons.prems(2)[rule_format, of "Suc i"] by simp
      then show "smtp (smtp_calls st2 + i) \<noteq> None" by (simp add: st2)
    qed
    have 3: "\<forall>i<length rest. (rest ! i < m - 1) = (Suc i < length rest)"
    proof (intro allI impI)
      fix i assume "i < length rest"
      then show "(rest ! i < m - 1) = (Suc i < length rest)"
        using Cons.prems(3)[rule_format, of "Suc i"] by simp
    qed
    from Cons.IH[OF 1 2 3, of "(False, Some (error_detail e))"] a 1
    show ?thesis
      unfolding step by (auto simp: st2 Cons)
  qed
qed

lemma py_range_length: "length (py_range m) = nat m"
  by (simp add: py_range_def)

lemma py_range_nth: "i < nat m \<Longrightarrow> py_range m ! i = int i"
  by (simp add: py_range_def)

lemma attempts_first_success:
  assumes em: "map_of data ''email'' = Some to_email"
    and k: "k < nat m"
    and fails: "\<forall>i<k. smtp (smtp_calls st + i) \<noteq> None"
    and ok: "smtp (smtp_calls st + k) = None"
  shows "\<exists>st'. attempts_loop smtp data subject html_body pdf_data pdf_filename m (py_range m) r st
            = Inr ((True, None), st') \<and>
          trace st' = trace st @
            concat (replicate k [Send_email to_email subject html_body pdf_data pdf_filename, Sleep 2]) @
            [Send_email to_email subject html_body pdf_data pdf_filename] \<and>
          smtp_calls st' = smtp_calls st + k + 1 \<and> results st' = results st"
proof (rule attempts_loop_success[OF em _ fails ok])
  show "k < length (py_range m)" using k by (simp add: py_range_length)
  show "\<forall>i<k. py_range m ! i < m - 1"
  proof (intro allI impI)
    fix i assume "i < k"
    with k show "py_range m ! i < m - 1" by (simp add: py_range_nth)
  qed
qed

lemma attempts_all_fail:
  assumes em: "map_of data ''email'' = Some to_email"
    and m: "1 \<le> m"
    and fails: "\<forall>i<nat m. smtp (smtp_calls st + i) \<noteq> None"
  shows "\<exists>st' e. smtp (smtp_calls st + (nat m - 1)) = Some e \<and>
          attempts_loop smtp data subject html_body pdf_data pdf_filename m (py_range m) r st
            = Inr ((False, Some (error_detail e)), st') \<and>
          trace st' = trace st @
            concat (replicate (nat m - 1) [Send_email to_email subject html_body pdf_data pdf_filename, Sleep 2]) @
            [Send_email to_email subject html_body pdf_data pdf_filename] \<and>
          smtp_calls st' = smtp_calls st + nat m \<and> results st' = results st"
proof -
  have 1: "py_range m \<noteq> []" using m by (simp add: py_range_def)
  have 2: "\<forall>i<length (py_range m). smtp (smtp_calls st + i) \<noteq> None"
    using fails by (simp add: py_range_length)
  have 3: "\<forall>i<length (py_range m). (py_range m ! i < m - 1) = (Suc i < length (py_range m))"
  proof (intro allI impI)
    fix i assume "i < length (py_range m)"
    then have "i < nat m" by (simp add: py_range_length)
    then show "(py_range m ! i < m - 1) = (Suc i < length (py_range m))"
      by (auto simp: py_range_nth py_range_length)
  qed
  from attempts_loop_exhausted[OF em 1 2 3, of subject html_body pdf_data pdf_filename r]
  show ?thesis by (simp add: py_range_length)
qed

text \<open>The loop never touches the results, and whatever it adds to the trace is a send or a wait of 2.\<close>

lemma attempts_loop_frame:
  "attempts_loop smtp data subject html_body pdf_data pdf_filename m atts r st = Inr (r', st') \<Longrightarrow>
   results st' = results st \<and> prefix (logged st) (logged st') \<and>
   (\<exists>new. trace st' = trace st @ new \<and>
      list_all (\<lambda>ef. ef = Sleep 2 \<or>
         (\<exists>to_email. ef = Send_email to_email subject html_body pdf_data pdf_filename)) new)"
proof (induction atts arbitrary: r st)
  case Nil
  then show ?case by (simp add: attempts_loop.simps)
next
  case (Cons a atts)
  from Cons.prems obtain to_email where to: "map_of data ''email'' = Some to_email"
    by (auto simp: attempts_loop.simps getitem_def split: option.splits)
  show ?case
  proof (cases "smtp (smtp_calls st)")
    case None
    from attempts_loop_ok_step[where smtp=smtp and st=st, OF to None,
        of subject html_body pdf_data pdf_filename m a atts r] Cons.prems
    show ?thesis by auto
  next
    case (Some e)
    from attempts_loop_fail_step[where smtp=smtp and st=st, OF to Some,
        of subject html_body pdf_data pdf_filename m a atts r]
    obtain st2 where step: "attempts_loop smtp data subject html_body pdf_data pdf_filename m (a # atts) r st =
        attempts_loop smtp data subject html_body pdf_data pdf_filename m atts (False, Some (error_detail e)) st2"
      and st2: "results st2 = results st" "prefix (logged st) (logged st2)"
        "trace st2 = trace st @ Send_email to_email subject html_body pdf_data pdf_filename #
                       (if a < m - 1 then [Sleep 2] else [])"
      by auto
    from Cons.prems step have
      "attempts_loop smtp data subject html_body pdf_data pdf_filename m atts (False, Some (error_detail e)) st2
        = Inr (r', st')" by simp
    from Cons.IH[OF this] st2(2) show ?thesis
      by (auto simp: st2(1,3) intro: prefix_order.trans)
  qed
qed

lemma attempts_loop_returns:
  assumes em: "map_of data ''email'' = Some to_email"
  shows "\<exists>r' st'. attempts_loop smtp data subject html_body pdf_data pdf_filename m atts r st = Inr (r', st')"
proof (induction atts arbitrary: r st)
  case Nil
  show ?case by (simp add: attempts_loop.simps)
next
  case (Cons a atts)
  show ?case
  proof (cases "smtp (smtp_calls st)")
    case None
    from attempts_loop_ok_step[where smtp=smtp and st=st, OF em None,
        of subject html_body pdf_data pdf_filename m a atts r]
    show ?thesis by auto
  next
    case (Some e)
    from attempts_loop_fail_step[where smtp=smtp and st=st, OF em Some,
        of subject html_body pdf_data pdf_filename m a atts r]
    obtain st2 where step: "attempts_loop smtp data subject html_body pdf_data pdf_filename m (a # atts) r st =
        attempts_loop smtp data subject html_body pdf_data pdf_filename m atts (False, Some (error_detail e)) st2"
      by auto
    show ?thesis unfolding step by (rule Cons.IH)
  qed
qed

lemma render_template_ok:
  "map_of (cfg_email cfg) ''from_name'' = Some fn \<Longrightarrow>
   render_template cfg template data =
     Inr (substitute (AList.update ''from_name'' fn data) template, AList.update ''from_name'' fn data)"
  by (simp add: render_template_def getitem_Some Let_def)

lemma generate_pdf_ok:
  "pdf_generator self data = Inr pdf \<Longrightarrow> map_of data ''nombre'' = Some n \<Longrightarrow>
   generate_pdf self data st =
     Inr ((Some pdf, safe_pdf_name data @ ''_'' @ safe_nombre n @ ''.pdf''), st)"
  by (simp add: generate_pdf_def getitem_Some)

lemma generate_pdf_fail:
  "pdf_generator self data = Inl e \<Longrightarrow> map_of data ''email'' = Some to_email \<Longrightarrow>
   generate_pdf self data st =
     Inr ((None, ''documento.pdf''),
          st\<lparr>logged := logged st @ [(ERROR, ''Error generando PDF para '' @ to_email @ '': '' @ str_exn e)]\<rparr>)"
  by (simp add: generate_pdf_def getitem_Some logger_def)

lemma generate_pdf_frame:
  "generate_pdf self data st = Inr (r, st1) \<Longrightarrow>
   results st1 = results st \<and> trace st1 = trace st \<and> smtp_calls st1 = smtp_calls st \<and>
   prefix (logged st) (logged st1)"
  by (auto simp: generate_pdf_def logger_def split: sum.splits)

lemma generate_pdf_returns:
  assumes "map_of data ''email'' = Some to_email" "map_of data ''nombre'' = Some n"
  shows "\<exists>r st1. generate_pdf self data st = Inr (r, st1)"
proof (cases "pdf_generator self data")
  case (Inl e)
  from generate_pdf_fail[OF this assms(1)] show ?thesis by blast
next
  case (Inr pdf)
  from generate_pdf_ok[OF this assms(2)] show ?thesis by blast
qed

text \<open>The body up to the result, once the lookups are known to succeed.\<close>

lemma deliver_row_eq:
  assumes fn: "map_of (cfg_email (config self)) ''from_name'' = Some fn"
    and sj: "map_of (cfg_email (config self)) ''subject'' = Some sj"
    and mr: "map_of (cfg_settings (config self)) ''max_retries'' = Some m"
    and em: "map_of data ''email'' = Some to_email"
    and nm: "map_of data ''nombre'' = Some n"
    and gp: "generate_pdf self data st = Inr ((pdf_data, pdf_filename), st1)"
    and lp: "attempts_loop smtp (AList.update ''from_name'' fn data)
               (substitute (AList.update ''from_name'' fn data) sj)
               (substitute (AList.update ''from_name'' fn data) (email_template self))
               pdf_data pdf_filename m (py_range m) (False, None) st1 = Inr ((ok, msg), st2)"
  shows "deliver_row self smtp data st =
           Inr (ok, st2\<lparr>results := results st2 @
                  [\<lparr>email = to_email, nombre = n,
                    status = (if ok then Exito else ''Error''),
                    error = (if \<not> ok then msg else Some [])\<rparr>]\<rparr>)"
proof -
  let ?d = "AList.update ''from_name'' fn data"
  have em': "map_of ?d ''email'' = Some to_email" and nm': "map_of ?d ''nombre'' = Some n"
    using em nm by (simp_all add: update_conv')
  have r2: "render_template (config self) sj ?d = Inr (substitute ?d sj, ?d)"
    using render_template_ok[OF fn, of sj ?d] by simp
  show ?thesis
    unfolding deliver_row_def
    by (simp add: gp render_template_ok[OF fn] r2 getitem_Some[OF sj] getitem_Some[OF mr] lp
        getitem_Some[OF em'] getitem_Some[OF nm'])
qed

lemma error_detail_class: "error_detail e = class_words (error_class_of e) @ str_exn e"
proof (cases e)
  case (Raised c m)
  then show ?thesis by (cases c) (simp_all add: error_detail_def)
qed

lemma class_words_nonempty: "class_words c \<noteq> []"
  by (cases c) (simp_all add: Error_de_autenticacion_def)

section \<open>The outcome of one call of \<open>send_email\<close>\<close>

text \<open>
  Claim C8. A call of \<open>send_email\<close> always returns. When the body runs through it
  returns \<open>(True, None)\<close>. When the body raises, it returns \<open>False\<close> with a detail that
  is not empty: the words of the error class (authentication, other SMTP failure,
  anything else) followed by the text of the exception; the same detail goes to the log
  as an error. Exceptions outside \<open>Exception\<close> (\<open>KeyboardInterrupt\<close>) are not part of the
  oracle.
\<close>

theorem send_email_returns_outcome:
  "(smtp (smtp_calls st) = None \<longrightarrow>
      fst (send_email smtp to_email subject html_body pdf_data pdf_filename st) = (True, None)) \<and>
   (\<forall>e. smtp (smtp_calls st) = Some e \<longrightarrow>
      fst (send_email smtp to_email subject html_body pdf_data pdf_filename st) =
        (False, Some (class_words (error_class_of e) @ str_exn e)) \<and>
      class_words (error_class_of e) @ str_exn e \<noteq> [] \<and>
      logged (snd (send_email smtp to_email subject html_body pdf_data pdf_filename st)) =
        logged st @ [(ERROR, x_mark @ '' '' @ class_words (error_class_of e) @ str_exn e @ '' - '' @ to_email)])"
proof (intro conjI allI impI)
  assume "smtp (smtp_calls st) = None"
  then show "fst (send_email smtp to_email subject html_body pdf_data pdf_filename st) = (True, None)"
    by (simp add: send_email_ok)
next
  fix e assume e: "smtp (smtp_calls st) = Some e"
  show "fst (send_email smtp to_email subject html_body pdf_data pdf_filename st) =
        (False, Some (class_words (error_class_of e) @ str_exn e))"
    by (simp add: send_email_fail[where smtp=smtp and st=st, OF e] error_detail_class)
  show "class_words (error_class_of e) @ str_exn e \<noteq> []"
    by (simp add: class_words_nonempty)
  show "logged (snd (send_email smtp to_email subject html_body pdf_data pdf_filename st)) =
        logged st @ [(ERROR, x_mark @ '' '' @ class_words (error_class_of e) @ str_exn e @ '' - '' @ to_email)]"
    by (simp add: send_email_fail[where smtp=smtp and st=st, OF e] error_detail_class)
qed

theorem send_email_returns_outcome_witness:
  "fst (send_email (\<lambda>n. Some (Raised SMTPAuthenticationError ''535'')) ''ana@x.co'' ''Hola'' ''<p>Hola</p>''
          None ''documento.pdf'' start) = (False, Some (Error_de_autenticacion @ ''535'')) \<and>
   fst (send_email (\<lambda>n. Some (Raised SMTPException ''421'')) ''ana@x.co'' ''Hola'' ''<p>Hola</p>''
          None ''documento.pdf'' start) = (False, Some ''Error SMTP: 421'') \<and>
   fst (send_email (\<lambda>n. Some (Raised KeyError ''smtp'')) ''ana@x.co'' ''Hola'' ''<p>Hola</p>''
          None ''documento.pdf'' start) = (False, Some ''Error inesperado: smtp'') \<and>
   fst (send_email (\<lambda>n. None) ''ana@x.co'' ''Hola'' ''<p>Hola</p>'' None ''documento.pdf'' start) = (True, None)"
  using send_email_returns_outcome[of "\<lambda>n. Some (Raised SMTPAuthenticationError ''535'')" start
          "''ana@x.co''" "''Hola''" "''<p>Hola</p>''" None "''documento.pdf''"]
        send_email_returns_outcome[of "\<lambda>n. Some (Raised SMTPException ''421'')" start
          "''ana@x.co''" "''Hola''" "''<p>Hola</p>''" None "''documento.pdf''"]
        send_email_returns_outcome[of "\<lambda>n. Some (Raised KeyError ''smtp'')" start
          "''ana@x.co''" "''Hola''" "''<p>Hola</p>''" None "''documento.pdf''"]
        send_email_returns_outcome[of "\<lambda>n. None" start
          "''ana@x.co''" "''Hola''" "''<p>Hola</p>''" None "''documento.pdf''"]
  by simp

section \<open>\<open>_render_template\<close> writes into the caller's dictionary\<close>

text \<open>
  Claim C10. After a call of \<open>_render_template\<close> the caller's dictionary binds
  \<open>from_name\<close> to the configured name, whatever it held under that key before; every
  other key is as it was; the substitution itself already works on the dictionary so
  changed; and a later rendering with the same dictionary (the subject, after the body)
  starts from it and leaves it as it is.
\<close>

theorem render_template_writes_from_name:
  assumes "render_template cfg template data = Inr (rendered, data')"
  shows "\<exists>fn. map_of (cfg_email cfg) ''from_name'' = Some fn \<and>
           map_of data' ''from_name'' = Some fn \<and>
           (\<forall>k. k \<noteq> ''from_name'' \<longrightarrow> map_of data' k = map_of data k) \<and>
           rendered = substitute data' template \<and>
           (\<forall>t. render_template cfg t data' = Inr (substitute data' t, data'))"
proof -
  from assms obtain fn where fn: "map_of (cfg_email cfg) ''from_name'' = Some fn"
    by (auto simp: render_template_def getitem_def split: option.splits)
  from assms have d: "data' = AList.update ''from_name'' fn data"
    and r: "rendered = substitute data' template"
    by (auto simp: render_template_ok[OF fn])
  have "\<forall>t. render_template cfg t data' = Inr (substitute data' t, data')"
    by (simp add: render_template_ok[OF fn] d)
  with fn r show ?thesis
    by (auto simp: d update_conv')
qed

theorem render_template_writes_from_name_witness:
  "map_of [(''from_name'', ''Bob''), (''nombre'', ''Ana'')] ''from_name'' = Some ''Bob'' \<and>
   render_template \<lparr>cfg_email = [(''from_name'', ''Bob'')], cfg_settings = []\<rparr> ''Saludos, {{from_name}}''
     [(''from_name'', ''Eve''), (''nombre'', ''Ana'')] =
     Inr (''Saludos, Bob'', [(''from_name'', ''Bob''), (''nombre'', ''Ana'')]) \<and>
   render_template \<lparr>cfg_email = [(''from_name'', ''Bob'')], cfg_settings = []\<rparr> ''De {{from_name}}''
     [(''from_name'', ''Bob''), (''nombre'', ''Ana'')] =
     Inr (''De Bob'', [(''from_name'', ''Bob''), (''nombre'', ''Ana'')])"
proof -
  have r: "render_template \<lparr>cfg_email = [(''from_name'', ''Bob'')], cfg_settings = []\<rparr> ''Saludos, {{from_name}}''
     [(''from_name'', ''Eve''), (''nombre'', ''Ana'')] =
     Inr (''Saludos, Bob'', [(''from_name'', ''Bob''), (''nombre'', ''Ana'')])"
    by (simp add: render_template_def getitem_def substitute_def placeholder_def)
  from render_template_writes_from_name[OF r] r show ?thesis
    by (simp add: substitute_def placeholder_def)
qed

section \<open>The name of the attachment\<close>

lemma safe_pdf_name_map:
  "safe_pdf_name data =
     map (\<lambda>c. if c \<in> {CHR ''/'', CHR 0x5C, CHR '':''} then CHR ''_'' else c)
       (case map_of data ''nombre_pdf'' of None \<Rightarrow> ''documento'' | Some t \<Rightarrow> t)"
  by (simp add: safe_pdf_name_def py_replace_char_underscore)

lemma safe_nombre_map:
  "safe_nombre n =
     map (\<lambda>c. if c \<in> {CHR '' '', CHR ''/'', CHR 0x5C, CHR '':''} then CHR ''_'' else c) n"
  by (simp add: safe_nombre_def py_replace_char_underscore)

text \<open>
  Claim C5, as the code has it. For a recipient with \<open>email\<close> and \<open>nombre\<close>: when the
  generator returns a document, the file name is the title, an underscore, the name and
  \<open>.pdf\<close>, where \<open>/\<close>, the backslash and \<open>:\<close> of the title and, with the blank, of the name
  are underscores, and a record without the column \<open>nombre_pdf\<close> has the title
  \<open>documento\<close>. The name \<open>documento.pdf\<close> is used when the generator fails, and then
  there is no attachment.
\<close>

theorem attachment_filename:
  assumes "map_of data ''email'' = Some to_email" and "map_of data ''nombre'' = Some n"
  shows "(\<forall>pdf. pdf_generator self data = Inr pdf \<longrightarrow>
            generate_pdf self data st =
              Inr ((Some pdf,
                    map (\<lambda>c. if c \<in> {CHR ''/'', CHR 0x5C, CHR '':''} then CHR ''_'' else c)
                      (case map_of data ''nombre_pdf'' of None \<Rightarrow> ''documento'' | Some t \<Rightarrow> t) @
                    ''_'' @
                    map (\<lambda>c. if c \<in> {CHR '' '', CHR ''/'', CHR 0x5C, CHR '':''} then CHR ''_'' else c) n @
                    ''.pdf''), st)) \<and>
         (\<forall>e. pdf_generator self data = Inl e \<longrightarrow>
            (\<exists>st1. generate_pdf self data st = Inr ((None, ''documento.pdf''), st1)))"
proof (intro conjI allI impI)
  fix pdf assume "pdf_generator self data = Inr pdf"
  from generate_pdf_ok[OF this assms(2)]
  show "generate_pdf self data st =
              Inr ((Some pdf,
                    map (\<lambda>c. if c \<in> {CHR ''/'', CHR 0x5C, CHR '':''} then CHR ''_'' else c)
                      (case map_of data ''nombre_pdf'' of None \<Rightarrow> ''documento'' | Some t \<Rightarrow> t) @
                    ''_'' @
                    map (\<lambda>c. if c \<in> {CHR '' '', CHR ''/'', CHR 0x5C, CHR '':''} then CHR ''_'' else c) n @
                    ''.pdf''), st)"
    by (simp only: safe_pdf_name_map safe_nombre_map)
next
  fix e assume e: "pdf_generator self data = Inl e"
  show "\<exists>st1. generate_pdf self data st = Inr ((None, ''documento.pdf''), st1)"
    by (simp add: generate_pdf_fail[OF e assms(1)])
qed

theorem attachment_filename_witness:
  "generate_pdf demo_sender
     [(''email'', ''jo@x.co''), (''nombre'', ''Jo'' @ [CHR 0x5C] @ ''Ann''), (''nombre_pdf'', ''Q1/Report:Final'')]
     start =
   Inr ((Some ''%PDF'', ''Q1_Report_Final_Jo_Ann.pdf''), start) \<and>
   (\<exists>st1. generate_pdf failing_sender
     [(''email'', ''jo@x.co''), (''nombre'', ''Jo'' @ [CHR 0x5C] @ ''Ann''), (''nombre_pdf'', ''Q1/Report:Final'')]
     start = Inr ((None, ''documento.pdf''), st1))"
  using attachment_filename[of
      "[(''email'', ''jo@x.co''), (''nombre'', ''Jo'' @ [CHR 0x5C] @ ''Ann''), (''nombre_pdf'', ''Q1/Report:Final'')]"
      "''jo@x.co''" "''Jo'' @ [CHR 0x5C] @ ''Ann''" demo_sender start]
    attachment_filename[of
      "[(''email'', ''jo@x.co''), (''nombre'', ''Jo'' @ [CHR 0x5C] @ ''Ann''), (''nombre_pdf'', ''Q1/Report:Final'')]"
      "''jo@x.co''" "''Jo'' @ [CHR 0x5C] @ ''Ann''" failing_sender start]
  by (simp add: demo_sender_def failing_sender_def)

text \<open>
  Against C5 as stated: a record without \<open>nombre_pdf\<close> whose document is generated gets
  \<open>documento_Ana.pdf\<close>, not \<open>documento.pdf\<close>.
\<close>

theorem attachment_filename_counterexample:
  "map_of ana ''nombre_pdf'' = None \<and>
   generate_pdf demo_sender ana start = Inr ((Some ''%PDF'', ''documento_Ana.pdf''), start) \<and>
   ''documento_Ana.pdf'' \<noteq> ''documento.pdf''"
  by (simp add: ana_def demo_sender_def generate_pdf_def getitem_def safe_pdf_name_def safe_nombre_def)

section \<open>The retry policy\<close>

lemma config_okD:
  assumes "config_ok cfg"
  obtains fn sj m d where "map_of (cfg_email cfg) ''from_name'' = Some fn"
    and "map_of (cfg_email cfg) ''subject'' = Some sj"
    and "map_of (cfg_settings cfg) ''max_retries'' = Some m"
    and "map_of (cfg_settings cfg) ''delay_between_emails'' = Some d" and "0 \<le> d"
  using assms by (auto simp: config_ok_def split: option.splits)

text \<open>
  Claim C2. For a recipient with \<open>email\<close> and \<open>nombre\<close> and \<open>max_retries = m\<close> of at least 1:
  when the first success is the attempt number \<open>k + 1\<close> (with \<open>k < m\<close>; \<open>k = m - 1\<close> is the
  success on the last attempt), the result is a success and the recipient caused
  exactly \<open>k + 1\<close> sends with a wait of 2 seconds after each of the \<open>k\<close> failed ones, and
  nothing after the success; when all \<open>m\<close> attempts fail, the result is an error with
  the detail of the last attempt, after \<open>m\<close> sends and \<open>m - 1\<close> waits, none after the
  last attempt.
\<close>

theorem retry_policy:
  assumes cfg: "config_ok (config self)"
    and mr: "map_of (cfg_settings (config self)) ''max_retries'' = Some m" and m: "1 \<le> m"
    and em: "map_of data ''email'' = Some to_email" and nm: "map_of data ''nombre'' = Some n"
  shows
   "(\<forall>k<nat m. (\<forall>i<k. smtp (smtp_calls st + i) \<noteq> None) \<and> smtp (smtp_calls st + k) = None \<longrightarrow>
       (\<exists>st' subject html_body pdf_data pdf_filename.
          deliver_row self smtp data st = Inr (True, st') \<and>
          results st' = results st @ [\<lparr>email = to_email, nombre = n, status = Exito, error = Some []\<rparr>] \<and>
          trace st' = trace st @
            concat (replicate k [Send_email to_email subject html_body pdf_data pdf_filename, Sleep 2]) @
            [Send_email to_email subject html_body pdf_data pdf_filename])) \<and>
    ((\<forall>i<nat m. smtp (smtp_calls st + i) \<noteq> None) \<longrightarrow>
       (\<exists>st' e subject html_body pdf_data pdf_filename.
          smtp (smtp_calls st + (nat m - 1)) = Some e \<and>
          deliver_row self smtp data st = Inr (False, st') \<and>
          results st' = results st @
            [\<lparr>email = to_email, nombre = n, status = ''Error'', error = Some (error_detail e)\<rparr>] \<and>
          trace st' = trace st @
            concat (replicate (nat m - 1) [Send_email to_email subject html_body pdf_data pdf_filename, Sleep 2]) @
            [Send_email to_email subject html_body pdf_data pdf_filename]))"
proof -
  from cfg obtain fn sj where fn: "map_of (cfg_email (config self)) ''from_name'' = Some fn"
    and sj: "map_of (cfg_email (config self)) ''subject'' = Some sj"
    by (rule config_okD)
  from generate_pdf_returns[OF em nm] obtain pdf_data pdf_filename st1
    where gp: "generate_pdf self data st = Inr ((pdf_data, pdf_filename), st1)"
    by fastforce
  from generate_pdf_frame[OF gp] have st1: "results st1 = results st" "trace st1 = trace st"
    "smtp_calls st1 = smtp_calls st" by simp_all
  let ?d = "AList.update ''from_name'' fn data"
  let ?subject = "substitute ?d sj"
  let ?body = "substitute ?d (email_template self)"
  let ?send = "Send_email to_email ?subject ?body pdf_data pdf_filename"
  have em1: "map_of ?d ''email'' = Some to_email" using em by (simp add: update_conv')
  show ?thesis
  proof (intro conjI allI impI)
    fix k assume k: "k < nat m"
      and h: "(\<forall>i<k. smtp (smtp_calls st + i) \<noteq> None) \<and> smtp (smtp_calls st + k) = None"
    from h have fails: "\<forall>i<k. smtp (smtp_calls st1 + i) \<noteq> None"
      and ok: "smtp (smtp_calls st1 + k) = None" by (simp_all add: st1)
    from attempts_first_success[where smtp=smtp and st=st1, OF em1 k fails ok,
        of ?subject ?body pdf_data pdf_filename "(False, None)"]
    obtain st2 where lp: "attempts_loop smtp ?d ?subject ?body pdf_data pdf_filename m (py_range m)
          (False, None) st1 = Inr ((True, None), st2)"
      and st2: "trace st2 = trace st1 @ concat (replicate k [?send, Sleep 2]) @ [?send]"
        "results st2 = results st1"
      by blast
    let ?st' = "st2\<lparr>results := results st2 @
                  [\<lparr>email = to_email, nombre = n, status = Exito, error = Some []\<rparr>]\<rparr>"
    have "deliver_row self smtp data st = Inr (True, ?st')"
      using deliver_row_eq[OF fn sj mr em nm gp lp] by simp
    moreover have "results ?st' = results st @ [\<lparr>email = to_email, nombre = n, status = Exito, error = Some []\<rparr>]"
      by (simp add: st2 st1)
    moreover have "trace ?st' = trace st @ concat (replicate k [?send, Sleep 2]) @ [?send]"
      by (simp add: st2 st1)
    ultimately show "\<exists>st' subject html_body pdf_data pdf_filename.
          deliver_row self smtp data st = Inr (True, st') \<and>
          results st' = results st @ [\<lparr>email = to_email, nombre = n, status = Exito, error = Some []\<rparr>] \<and>
          trace st' = trace st @
            concat (replicate k [Send_email to_email subject html_body pdf_data pdf_filename, Sleep 2]) @
            [Send_email to_email subject html_body pdf_data pdf_filename]"
      by blast
  next
    assume "\<forall>i<nat m. smtp (smtp_calls st + i) \<noteq> None"
    then have fails: "\<forall>i<nat m. smtp (smtp_calls st1 + i) \<noteq> None" by (simp add: st1)
    from attempts_all_fail[where smtp=smtp and st=st1, OF em1 m fails,
        of ?subject ?body pdf_data pdf_filename "(False, None)"]
    obtain st2 e where e: "smtp (smtp_calls st1 + (nat m - 1)) = Some e"
      and lp: "attempts_loop smtp ?d ?subject ?body pdf_data pdf_filename m (py_range m)
          (False, None) st1 = Inr ((False, Some (error_detail e)), st2)"
      and st2: "trace st2 = trace st1 @ concat (replicate (nat m - 1) [?send, Sleep 2]) @ [?send]"
        "results st2 = results st1"
      by blast
    let ?st' = "st2\<lparr>results := results st2 @
                  [\<lparr>email = to_email, nombre = n, status = ''Error'', error = Some (error_detail e)\<rparr>]\<rparr>"
    have "deliver_row self smtp data st = Inr (False, ?st')"
      using deliver_row_eq[OF fn sj mr em nm gp lp] by simp
    moreover have "results ?st' = results st @
        [\<lparr>email = to_email, nombre = n, status = ''Error'', error = Some (error_detail e)\<rparr>]"
      by (simp add: st2 st1)
    moreover have "trace ?st' = trace st @ concat (replicate (nat m - 1) [?send, Sleep 2]) @ [?send]"
      by (simp add: st2 st1)
    moreover have "smtp (smtp_calls st + (nat m - 1)) = Some e" using e by (simp add: st1)
    ultimately show "\<exists>st' e subject html_body pdf_data pdf_filename.
          smtp (smtp_calls st + (nat m - 1)) = Some e \<and>
          deliver_row self smtp data st = Inr (False, st') \<and>
          results st' = results st @
            [\<lparr>email = to_email, nombre = n, status = ''Error'', error = Some (error_detail e)\<rparr>] \<and>
          trace st' = trace st @
            concat (replicate (nat m - 1) [Send_email to_email subject html_body pdf_data pdf_filename, Sleep 2]) @
            [Send_email to_email subject html_body pdf_data pdf_filename]"
      by blast
  qed
qed

lemma demo_config_ok: "config_ok (config demo_sender)"
  by (simp add: config_ok_def demo_sender_def demo_config_def)

theorem retry_policy_witness:
  "(\<exists>st' subject html_body pdf_data pdf_filename.
      deliver_row demo_sender (refuse_first 2) ana start = Inr (True, st') \<and>
      results st' = results start @ [\<lparr>email = ''ana@x.co'', nombre = ''Ana'', status = Exito, error = Some []\<rparr>] \<and>
      trace st' = trace start @
        concat (replicate 2 [Send_email ''ana@x.co'' subject html_body pdf_data pdf_filename, Sleep 2]) @
        [Send_email ''ana@x.co'' subject html_body pdf_data pdf_filename]) \<and>
   (\<exists>st' e subject html_body pdf_data pdf_filename.
      refuse_first 3 (smtp_calls start + (nat 3 - 1)) = Some e \<and>
      deliver_row demo_sender (refuse_first 3) ana start = Inr (False, st') \<and>
      results st' = results start @
        [\<lparr>email = ''ana@x.co'', nombre = ''Ana'', status = ''Error'', error = Some (error_detail e)\<rparr>] \<and>
      trace st' = trace start @
        concat (replicate (nat 3 - 1) [Send_email ''ana@x.co'' subject html_body pdf_data pdf_filename, Sleep 2]) @
        [Send_email ''ana@x.co'' subject html_body pdf_data pdf_filename]) \<and>
   run_trace (deliver_row demo_sender (refuse_first 2) ana start) =
     Inr [Send_email ''ana@x.co'' ''Hola Ana'' ''<p>Ana: Bob</p>'' (Some ''%PDF'') ''documento_Ana.pdf'', Sleep 2,
          Send_email ''ana@x.co'' ''Hola Ana'' ''<p>Ana: Bob</p>'' (Some ''%PDF'') ''documento_Ana.pdf'', Sleep 2,
          Send_email ''ana@x.co'' ''Hola Ana'' ''<p>Ana: Bob</p>'' (Some ''%PDF'') ''documento_Ana.pdf'']"
proof (intro conjI)
  have mr: "map_of (cfg_settings (config demo_sender)) ''max_retries'' = Some 3"
    by (simp add: demo_sender_def demo_config_def)
  have em: "map_of ana ''email'' = Some ''ana@x.co''" and nm: "map_of ana ''nombre'' = Some ''Ana''"
    by (simp_all add: ana_def)
  have a: "(\<forall>i<2. refuse_first 2 (smtp_calls start + i) \<noteq> None) \<and> refuse_first 2 (smtp_calls start + 2) = None"
    by (simp add: refuse_first_def start_def)
  show "\<exists>st' subject html_body pdf_data pdf_filename.
      deliver_row demo_sender (refuse_first 2) ana start = Inr (True, st') \<and>
      results st' = results start @ [\<lparr>email = ''ana@x.co'', nombre = ''Ana'', status = Exito, error = Some []\<rparr>] \<and>
      trace st' = trace start @
        concat (replicate 2 [Send_email ''ana@x.co'' subject html_body pdf_data pdf_filename, Sleep 2]) @
        [Send_email ''ana@x.co'' subject html_body pdf_data pdf_filename]"
    using retry_policy[OF demo_config_ok mr _ em nm, of "refuse_first 2" start, THEN conjunct1, rule_format, of 2] a
    by simp
  have b: "\<forall>i<nat 3. refuse_first 3 (smtp_calls start + i) \<noteq> None"
    by (simp add: refuse_first_def start_def)
  show "\<exists>st' e subject html_body pdf_data pdf_filename.
      refuse_first 3 (smtp_calls start + (nat 3 - 1)) = Some e \<and>
      deliver_row demo_sender (refuse_first 3) ana start = Inr (False, st') \<and>
      results st' = results start @
        [\<lparr>email = ''ana@x.co'', nombre = ''Ana'', status = ''Error'', error = Some (error_detail e)\<rparr>] \<and>
      trace st' = trace start @
        concat (replicate (nat 3 - 1) [Send_email ''ana@x.co'' subject html_body pdf_data pdf_filename, Sleep 2]) @
        [Send_email ''ana@x.co'' subject html_body pdf_data pdf_filename]"
    using retry_policy[OF demo_config_ok mr _ em nm, of "refuse_first 3" start, THEN conjunct2, rule_format] b
    by simp
  show "run_trace (deliver_row demo_sender (refuse_first 2) ana start) =
     Inr [Send_email ''ana@x.co'' ''Hola Ana'' ''<p>Ana: Bob</p>'' (Some ''%PDF'') ''documento_Ana.pdf'', Sleep 2,
          Send_email ''ana@x.co'' ''Hola Ana'' ''<p>Ana: Bob</p>'' (Some ''%PDF'') ''documento_Ana.pdf'', Sleep 2,
          Send_email ''ana@x.co'' ''Hola Ana'' ''<p>Ana: Bob</p>'' (Some ''%PDF'') ''documento_Ana.pdf'']"
    by code_simp
qed

section \<open>The wait between attempts\<close>

lemma getitem_InrD: "getitem d k = Inr v \<Longrightarrow> map_of d k = Some v"
  by (simp add: getitem_def split: option.splits)

lemma deliver_row_InrE:
  assumes "deliver_row self smtp data st = Inr (ok, st')"
  obtains r st1 data2 subject html_body m msg st2 res where
    "generate_pdf self data st = Inr (r, st1)"
    "map_of (cfg_settings (config self)) ''max_retries'' = Some m"
    "attempts_loop smtp data2 subject html_body (fst r) (snd r) m (py_range m) (False, None) st1
       = Inr ((ok, msg), st2)"
    "trace st' = trace st2" "logged st' = logged st2" "results st' = results st2 @ [res]"
    "status res = (if ok then Exito else ''Error'')"
proof -
  from assms obtain pdf_data pdf_filename st1 html_body data1 sj subject data2 m msg st2 to_email n
    where gp: "generate_pdf self data st = Inr ((pdf_data, pdf_filename), st1)"
      and mr: "getitem (cfg_settings (config self)) ''max_retries'' = Inr m"
      and lp: "attempts_loop smtp data2 subject html_body pdf_data pdf_filename m (py_range m)
                 (False, None) st1 = Inr ((ok, msg), st2)"
      and st': "st' = st2\<lparr>results := results st2 @
                 [\<lparr>email = to_email, nombre = n,
                   status = (if ok then Exito else ''Error''),
                   error = (if \<not> ok then msg else Some [])\<rparr>]\<rparr>"
    unfolding deliver_row_def
    by (auto split: sum.splits prod.splits)
  show ?thesis
    by (rule that[of "(pdf_data, pdf_filename)" st1 m data2 subject html_body msg st2
          "\<lparr>email = to_email, nombre = n,
                   status = (if ok then Exito else ''Error''),
                   error = (if \<not> ok then msg else Some [])\<rparr>"])
       (use gp lp getitem_InrD[OF mr] in \<open>simp_all add: st'\<close>)
qed

text \<open>
  What the loop does to the outside, whatever the server does: it sends, and after
  each send that failed and was not the last one allowed it waits 2 seconds and sends
  again.
\<close>

lemma attempts_loop_shape:
  "\<forall>i<length atts. (atts ! i < m - 1) = (Suc i < length atts) \<Longrightarrow> atts \<noteq> [] \<Longrightarrow>
   attempts_loop smtp data subject html_body pdf_data pdf_filename m atts r st = Inr ((ok, msg), st') \<Longrightarrow>
   \<exists>j to_email. j < length atts \<and> map_of data ''email'' = Some to_email \<and>
      (\<forall>i<j. smtp (smtp_calls st + i) \<noteq> None) \<and>
      ok = (smtp (smtp_calls st + j) = None) \<and> (ok \<or> Suc j = length atts) \<and>
      trace st' = trace st @
        concat (replicate j [Send_email to_email subject html_body pdf_data pdf_filename, Sleep 2]) @
        [Send_email to_email subject html_body pdf_data pdf_filename]"
proof (induction atts arbitrary: r st)
  case Nil
  then show ?case by simp
next
  case (Cons a rest)
  from Cons.prems(3) obtain to_email where to: "map_of data ''email'' = Some to_email"
    by (auto simp: attempts_loop.simps getitem_def split: option.splits)
  let ?send = "Send_email to_email subject html_body pdf_data pdf_filename"
  show ?case
  proof (cases "smtp (smtp_calls st)")
    case None
    from attempts_loop_ok_step[where smtp=smtp and st=st, OF to None,
        of subject html_body pdf_data pdf_filename m a rest r] Cons.prems(3)
    have "ok" and "trace st' = trace st @ [?send]" by auto
    with None to show ?thesis
      by (intro exI[of _ 0] exI[of _ to_email]) simp
  next
    case (Some e)
    from attempts_loop_fail_step[where smtp=smtp and st=st, OF to Some,
        of subject html_body pdf_data pdf_filename m a rest r]
    obtain st2 where step: "attempts_loop smtp data subject html_body pdf_data pdf_filename m (a # rest) r st =
        attempts_loop smtp data subject html_body pdf_data pdf_filename m rest (False, Some (error_detail e)) st2"
      and st2: "smtp_calls st2 = Suc (smtp_calls st)"
        "trace st2 = trace st @ ?send # (if a < m - 1 then [Sleep 2] else [])"
      by auto
    have a: "(a < m - 1) = (rest \<noteq> [])" using Cons.prems(1)[rule_format, of 0] by simp
    from Cons.prems(3) step have lp:
      "attempts_loop smtp data subject html_body pdf_data pdf_filename m rest (False, Some (error_detail e)) st2
        = Inr ((ok, msg), st')" by simp
    show ?thesis
    proof (cases rest)
      case Nil
      with lp have "\<not> ok" and "st' = st2" by (simp_all add: attempts_loop.simps)
      with Some to st2 a Nil show ?thesis
        by (intro exI[of _ 0] exI[of _ to_email]) simp
    next
      case (Cons b rest')
      have 1: "\<forall>i<length rest. (rest ! i < m - 1) = (Suc i < length rest)"
      proof (intro allI impI)
        fix i assume "i < length rest"
        then show "(rest ! i < m - 1) = (Suc i < length rest)"
          using Cons.prems(1)[rule_format, of "Suc i"] by simp
      qed
      have 2: "rest \<noteq> []" using Cons by simp
      from Cons.IH[OF 1 2 lp] obtain j to' where j: "j < length rest"
        and to': "map_of data ''email'' = Some to'"
        and fails: "\<forall>i<j. smtp (smtp_calls st2 + i) \<noteq> None"
        and ok: "ok = (smtp (smtp_calls st2 + j) = None)" "ok \<or> Suc j = length rest"
        and tr: "trace st' = trace st2 @
            concat (replicate j [Send_email to' subject html_body pdf_data pdf_filename, Sleep 2]) @
            [Send_email to' subject html_body pdf_data pdf_filename]"
        by blast
      from to to' have same: "to' = to_email" by simp
      have fails': "\<forall>i<Suc j. smtp (smtp_calls st + i) \<noteq> None"
      proof (intro allI impI)
        fix i assume i: "i < Suc j"
        show "smtp (smtp_calls st + i) \<noteq> None"
        proof (cases i)
          case 0
          then show ?thesis using Some by simp
        next
          case (Suc i')
          with i have "i' < j" by simp
          with fails have "smtp (smtp_calls st2 + i') \<noteq> None" by blast
          then show ?thesis by (simp add: Suc st2(1))
        qed
      qed
      have ok': "ok = (smtp (smtp_calls st + Suc j) = None)" using ok(1) by (simp add: st2(1))
      have tr': "trace st' = trace st @ concat (replicate (Suc j) [?send, Sleep 2]) @ [?send]"
        using tr a 2 by (simp add: st2(2) same)
      show ?thesis
        by (rule exI[of _ "Suc j"], rule exI[of _ to_email])
           (use j to fails' ok' ok(2) tr' in simp)
    qed
  qed
qed

lemma py_range_shape:
  assumes "1 \<le> m"
  shows "py_range m \<noteq> []"
    and "\<forall>i<length (py_range m). (py_range m ! i < m - 1) = (Suc i < length (py_range m))"
proof -
  show "py_range m \<noteq> []" using assms by (simp add: py_range_def)
  show "\<forall>i<length (py_range m). (py_range m ! i < m - 1) = (Suc i < length (py_range m))"
  proof (intro allI impI)
    fix i assume "i < length (py_range m)"
    then have "i < nat m" by (simp add: py_range_length)
    then show "(py_range m ! i < m - 1) = (Suc i < length (py_range m))"
      by (auto simp: py_range_nth py_range_length)
  qed
qed

text \<open>
  Claim C4, as the code has it. Whatever the configuration holds, a delivery to one
  recipient that returns has done this to the outside: some number \<open>j + 1\<close> of sends of
  the same message, at most \<open>max_retries\<close>, of which the first \<open>j\<close> failed, with a wait of
  exactly 2 seconds after each of these \<open>j\<close> and nothing else; it stopped because the
  last send succeeded or was the last one allowed. The 2 seconds are the constant of
  line 319; no setting is read for them.
\<close>

theorem backoff_is_two_seconds:
  assumes "deliver_row self smtp data st = Inr (ok, st')"
  shows "\<exists>m. map_of (cfg_settings (config self)) ''max_retries'' = Some m \<and>
           (if m < 1 then trace st' = trace st
            else \<exists>j to_email subject html_body pdf_data pdf_filename.
                   j < nat m \<and>
                   (\<forall>i<j. smtp (smtp_calls st + i) \<noteq> None) \<and>
                   ok = (smtp (smtp_calls st + j) = None) \<and> (ok \<or> Suc j = nat m) \<and>
                   trace st' = trace st @
                     concat (replicate j
                       [Send_email to_email subject html_body pdf_data pdf_filename, Sleep 2]) @
                     [Send_email to_email subject html_body pdf_data pdf_filename])"
proof -
  from assms obtain r st1 data2 subject html_body m msg st2
    where gp: "generate_pdf self data st = Inr (r, st1)"
      and mr: "map_of (cfg_settings (config self)) ''max_retries'' = Some m"
      and lp: "attempts_loop smtp data2 subject html_body (fst r) (snd r) m (py_range m) (False, None) st1
             = Inr ((ok, msg), st2)"
      and st': "trace st' = trace st2"
    by (rule deliver_row_InrE)
  from generate_pdf_frame[OF gp] have st1: "trace st1 = trace st" "smtp_calls st1 = smtp_calls st"
    by simp_all
  show ?thesis
  proof (cases "m < 1")
    case True
    then have "py_range m = []" by (simp add: py_range_def)
    with lp have "st2 = st1" by (simp add: attempts_loop.simps)
    with True mr st' st1 show ?thesis by simp
  next
    case False
    then have m: "1 \<le> m" by simp
    from attempts_loop_shape[OF py_range_shape(2)[OF m] py_range_shape(1)[OF m] lp]
    obtain j to_email where "j < length (py_range m)"
      and "\<forall>i<j. smtp (smtp_calls st1 + i) \<noteq> None"
      and "ok = (smtp (smtp_calls st1 + j) = None)" "ok \<or> Suc j = length (py_range m)"
      and "trace st2 = trace st1 @
        concat (replicate j [Send_email to_email subject html_body (fst r) (snd r), Sleep 2]) @
        [Send_email to_email subject html_body (fst r) (snd r)]"
      by blast
    then have "j < nat m \<and>
                   (\<forall>i<j. smtp (smtp_calls st + i) \<noteq> None) \<and>
                   ok = (smtp (smtp_calls st + j) = None) \<and> (ok \<or> Suc j = nat m) \<and>
                   trace st' = trace st @
                     concat (replicate j
                       [Send_email to_email subject html_body (fst r) (snd r), Sleep 2]) @
                     [Send_email to_email subject html_body (fst r) (snd r)]"
      by (simp add: py_range_length st1 st')
    then have "\<exists>j to_email subject html_body pdf_data pdf_filename.
                   j < nat m \<and>
                   (\<forall>i<j. smtp (smtp_calls st + i) \<noteq> None) \<and>
                   ok = (smtp (smtp_calls st + j) = None) \<and> (ok \<or> Suc j = nat m) \<and>
                   trace st' = trace st @
                     concat (replicate j
                       [Send_email to_email subject html_body pdf_data pdf_filename, Sleep 2]) @
                     [Send_email to_email subject html_body pdf_data pdf_filename]"
      by blast
    with False mr show ?thesis by simp
  qed
qed

theorem backoff_is_two_seconds_witness:
  "(\<exists>st' j to_email subject html_body pdf_data pdf_filename.
      deliver_row backoff_sender (refuse_first 2) ana start = Inr (True, st') \<and>
      j < nat 3 \<and> refuse_first 2 (smtp_calls start + j) = None \<and>
      trace st' = trace start @
        concat (replicate j [Send_email to_email subject html_body pdf_data pdf_filename, Sleep 2]) @
        [Send_email to_email subject html_body pdf_data pdf_filename]) \<and>
   run_trace (deliver_row backoff_sender (refuse_first 2) ana start) =
     Inr [Send_email ''ana@x.co'' ''Hola Ana'' ''<p>Ana: Bob</p>'' (Some ''%PDF'') ''documento_Ana.pdf'', Sleep 2,
          Send_email ''ana@x.co'' ''Hola Ana'' ''<p>Ana: Bob</p>'' (Some ''%PDF'') ''documento_Ana.pdf'', Sleep 2,
          Send_email ''ana@x.co'' ''Hola Ana'' ''<p>Ana: Bob</p>'' (Some ''%PDF'') ''documento_Ana.pdf'']"
proof (intro conjI)
  show tr: "run_trace (deliver_row backoff_sender (refuse_first 2) ana start) =
     Inr [Send_email ''ana@x.co'' ''Hola Ana'' ''<p>Ana: Bob</p>'' (Some ''%PDF'') ''documento_Ana.pdf'', Sleep 2,
          Send_email ''ana@x.co'' ''Hola Ana'' ''<p>Ana: Bob</p>'' (Some ''%PDF'') ''documento_Ana.pdf'', Sleep 2,
          Send_email ''ana@x.co'' ''Hola Ana'' ''<p>Ana: Bob</p>'' (Some ''%PDF'') ''documento_Ana.pdf'']"
    by code_simp
  have "fst (projr (deliver_row backoff_sender (refuse_first 2) ana start)) = True"
    by code_simp
  with tr obtain st' where d: "deliver_row backoff_sender (refuse_first 2) ana start = Inr (True, st')"
    by (auto simp: run_trace_def split: sum.splits prod.splits)
  have mr: "map_of (cfg_settings (config backoff_sender)) ''max_retries'' = Some 3"
    by (simp add: backoff_sender_def demo_sender_def demo_config_def)
  from backoff_is_two_seconds[OF d] mr
  show "\<exists>st' j to_email subject html_body pdf_data pdf_filename.
      deliver_row backoff_sender (refuse_first 2) ana start = Inr (True, st') \<and>
      j < nat 3 \<and> refuse_first 2 (smtp_calls start + j) = None \<and>
      trace st' = trace start @
        concat (replicate j [Send_email to_email subject html_body pdf_data pdf_filename, Sleep 2]) @
        [Send_email to_email subject html_body pdf_data pdf_filename]"
    using d by auto
qed

text \<open>
  Against C4 as stated: with \<open>retryBackoffSeconds\<close> set to 7 in the configuration, the
  wait after the failed first attempt is still 2 seconds.
\<close>

theorem backoff_counterexample:
  "map_of (cfg_settings (config backoff_sender)) ''retryBackoffSeconds'' = Some 7 \<and>
   run_trace (deliver_row backoff_sender (refuse_first 1) ana start) =
     Inr [Send_email ''ana@x.co'' ''Hola Ana'' ''<p>Ana: Bob</p>'' (Some ''%PDF'') ''documento_Ana.pdf'', Sleep 2,
          Send_email ''ana@x.co'' ''Hola Ana'' ''<p>Ana: Bob</p>'' (Some ''%PDF'') ''documento_Ana.pdf'']"
  by code_simp

section \<open>One result for each recipient\<close>

lemma to_dict_updates: "to_dict cols row = AList.updates cols row []"
  by (simp add: to_dict_def AList.updates_def)

lemma field_Some:
  assumes "k \<in> set cols" and "length row = length cols"
  shows "map_of (fillna (to_dict cols row)) k = Some (field cols row k)"
proof -
  have "k \<in> dom (map_of (to_dict cols row))"
    using assms by (simp add: to_dict_updates updates_conv' dom_map_upds)
  then obtain v where "map_of (to_dict cols row) k = Some v" by blast
  then have "map_of (fillna (to_dict cols row)) k \<noteq> None"
    by (simp add: fillna_def map_of_map)
  then show ?thesis
    by (auto simp: field_def)
qed

lemma Exito_not_Error: "Exito \<noteq> ''Error''"
  by (simp add: Exito_def)

lemma deliver_row_returns:
  assumes cfg: "config_ok (config self)"
    and em: "map_of data ''email'' = Some to_email" and nm: "map_of data ''nombre'' = Some n"
  shows "\<exists>ok st' res. deliver_row self smtp data st = Inr (ok, st') \<and>
           results st' = results st @ [res] \<and> email res = to_email \<and> nombre res = n \<and>
           status res = (if ok then Exito else ''Error'')"
proof -
  from cfg obtain fn sj m where fn: "map_of (cfg_email (config self)) ''from_name'' = Some fn"
    and sj: "map_of (cfg_email (config self)) ''subject'' = Some sj"
    and mr: "map_of (cfg_settings (config self)) ''max_retries'' = Some m"
    by (rule config_okD)
  from generate_pdf_returns[OF em nm] obtain pdf_data pdf_filename st1
    where gp: "generate_pdf self data st = Inr ((pdf_data, pdf_filename), st1)"
    by fastforce
  let ?d = "AList.update ''from_name'' fn data"
  have em1: "map_of ?d ''email'' = Some to_email" using em by (simp add: update_conv')
  from attempts_loop_returns[OF em1] obtain ok msg st2
    where lp: "attempts_loop smtp ?d (substitute ?d sj) (substitute ?d (email_template self))
                 pdf_data pdf_filename m (py_range m) (False, None) st1 = Inr ((ok, msg), st2)"
    by fastforce
  have "results st2 = results st"
    using attempts_loop_frame[OF lp] generate_pdf_frame[OF gp] by simp
  with deliver_row_eq[OF fn sj mr em nm gp lp] show ?thesis
    by simp
qed

lemma delay_acceptedD:
  assumes "config_ok cfg" and "delay_accepted cfg"
  obtains d where "map_of (cfg_settings cfg) ''delay_between_emails'' = Some d"
    and "0 \<le> d" and "d \<le> sleep_limit"
  using assms
  by (auto simp: config_ok_def delay_accepted_def max_delay_def sleep_limit_def split: option.splits)

lemma process_row_returns:
  assumes cfg: "config_ok (config self)" and da: "delay_accepted (config self)"
    and cols: "''email'' \<in> set cols" "''nombre'' \<in> set cols" and len: "length row = length cols"
  shows "\<exists>sc' fc' st' res.
           process_row self smtp cols ntotal (idx, row) (sc, fc, st) = Inr (sc', fc', st') \<and>
           results st' = results st @ [res] \<and>
           email res = field cols row ''email'' \<and> nombre res = field cols row ''nombre'' \<and>
           (status res = Exito \<or> status res = ''Error'') \<and>
           sc' = sc + (if status res = Exito then 1 else 0) \<and>
           fc' = fc + (if status res = Exito then 0 else 1)"
proof -
  let ?data = "fillna (to_dict cols row)"
  from deliver_row_returns[OF cfg field_Some[OF cols(1) len] field_Some[OF cols(2) len]]
  obtain ok st1 res where d: "deliver_row self smtp ?data st = Inr (ok, st1)"
    and r: "results st1 = results st @ [res]" "email res = field cols row ''email''"
      "nombre res = field cols row ''nombre''" "status res = (if ok then Exito else ''Error'')"
    by blast
  from cfg da obtain dl where dl: "map_of (cfg_settings (config self)) ''delay_between_emails'' = Some dl"
    and "0 \<le> dl" "dl \<le> sleep_limit"
    by (rule delay_acceptedD)
  then have sl: "sleep dl st1 = Inr (st1\<lparr>trace := trace st1 @ [Sleep dl]\<rparr>)"
    by (simp add: sleep_ok)
  show ?thesis
  proof (cases "idx < ntotal - 1")
    case True
    then show ?thesis
      using r Exito_not_Error
      by (simp add: process_row_def d getitem_Some[OF dl] sl)
  next
    case False
    then show ?thesis
      using r Exito_not_Error
      by (simp add: process_row_def d)
  qed
qed

lemma send_loop_returns:
  assumes cfg: "config_ok (config self)" and da: "delay_accepted (config self)"
    and cols: "''email'' \<in> set cols" "''nombre'' \<in> set cols"
  shows "list_all (\<lambda>r. length (snd r) = length cols) rs \<Longrightarrow>
    \<exists>sc' fc' st' new.
      send_loop self smtp cols ntotal rs (sc, fc, st) = Inr (sc', fc', st') \<and>
      results st' = results st @ new \<and>
      map email new = map (\<lambda>r. field cols (snd r) ''email'') rs \<and>
      map nombre new = map (\<lambda>r. field cols (snd r) ''nombre'') rs \<and>
      list_all (\<lambda>r. status r = Exito \<or> status r = ''Error'') new \<and>
      sc' = sc + int (length (filter (\<lambda>r. status r = Exito) new)) \<and>
      fc' = fc + int (length (filter (\<lambda>r. status r \<noteq> Exito) new))"
proof (induction rs arbitrary: sc fc st)
  case Nil
  show ?case by simp
next
  case (Cons r rs)
  obtain idx row where r: "r = (idx, row)" by (cases r)
  from Cons.prems have len: "length row = length cols"
    and rest: "list_all (\<lambda>r. length (snd r) = length cols) rs"
    by (simp_all add: r)
  from process_row_returns[OF cfg da cols len, of smtp ntotal idx sc fc st]
  obtain sc1 fc1 st1 res where p: "process_row self smtp cols ntotal (idx, row) (sc, fc, st) = Inr (sc1, fc1, st1)"
    and r1: "results st1 = results st @ [res]"
      "email res = field cols row ''email''" "nombre res = field cols row ''nombre''"
      "status res = Exito \<or> status res = ''Error''"
      "sc1 = sc + (if status res = Exito then 1 else 0)"
      "fc1 = fc + (if status res = Exito then 0 else 1)"
    by blast
  from Cons.IH[OF rest, of sc1 fc1 st1]
  obtain sc' fc' st' new where l: "send_loop self smtp cols ntotal rs (sc1, fc1, st1) = Inr (sc', fc', st')"
    and r2: "results st' = results st1 @ new"
      "map email new = map (\<lambda>r. field cols (snd r) ''email'') rs"
      "map nombre new = map (\<lambda>r. field cols (snd r) ''nombre'') rs"
      "list_all (\<lambda>r. status r = Exito \<or> status r = ''Error'') new"
      "sc' = sc1 + int (length (filter (\<lambda>r. status r = Exito) new))"
      "fc' = fc1 + int (length (filter (\<lambda>r. status r \<noteq> Exito) new))"
    by blast
  have step: "send_loop self smtp cols ntotal (r # rs) (sc, fc, st) = Inr (sc', fc', st')"
    by (simp add: r p l)
  have res: "results st' = results st @ res # new"
    by (simp add: r1(1) r2(1))
  have sc: "sc' = sc + int (length (filter (\<lambda>r. status r = Exito) (res # new)))"
    by (simp add: r1(5) r2(5))
  have fc: "fc' = fc + int (length (filter (\<lambda>r. status r \<noteq> Exito) (res # new)))"
    by (simp add: r1(6) r2(6))
  have all: "list_all (\<lambda>r. status r = Exito \<or> status r = ''Error'') (res # new)"
    using r1(4) r2(4) by simp
  have em: "map email (res # new) = map (\<lambda>r. field cols (snd r) ''email'') (r # rs)"
    and nm: "map nombre (res # new) = map (\<lambda>r. field cols (snd r) ''nombre'') (r # rs)"
    by (simp_all add: r r1(2,3) r2(2,3))
  show ?case
    by (rule exI[of _ sc'], rule exI[of _ fc'], rule exI[of _ st'], rule exI[of _ "res # new"])
       (intro conjI step res em nm all sc fc)
qed

lemma send_bulk_emails_returns:
  assumes cfg: "config_ok (config self)" and da: "delay_accepted (config self)"
    and df: "dataframe_ok df"
  shows "\<exists>stats st'. send_bulk_emails self smtp df preview_mode st = Inr (stats, st')"
proof -
  let ?rs = "if preview_mode then take 1 (rows df) else rows df"
  from df have cols: "''email'' \<in> set (columns df)" "''nombre'' \<in> set (columns df)"
    and "list_all (\<lambda>r. length (snd r) = length (columns df)) (rows df)"
    by (simp_all add: dataframe_ok_def)
  then have len: "list_all (\<lambda>r. length (snd r) = length (columns df)) ?rs"
    by (auto simp: list_all_iff dest: in_set_takeD)
  from send_loop_returns[OF cfg da cols len, of smtp "int (length ?rs)" 0 0 st]
  obtain sc fc st' where "send_loop self smtp (columns df) (int (length ?rs)) ?rs (0, 0, st) = Inr (sc, fc, st')"
    by blast
  then show ?thesis
    by (cases preview_mode) (simp_all add: send_bulk_emails_def Let_def)
qed

section \<open>A document that cannot be generated\<close>

lemma alternate_shift: "concat (replicate k [a, b]) @ [a] = a # concat (replicate k [b, a])"
  by (induction k) simp_all

lemma list_all_alternate: "P a \<Longrightarrow> P b \<Longrightarrow> list_all P (concat (replicate k [b, a]))"
  by (induction k) simp_all

text \<open>
  Claim C9. When the generator raises for a recipient (with \<open>email\<close> and \<open>nombre\<close>, under
  a configuration with its keys and \<open>max_retries\<close> of at least 1), the delivery still
  returns: the failure is in the log as an error, the first thing done to the outside
  is a send to the recipient with no attachment, everything after it is a wait of 2
  seconds or the same send again, and the result is a success exactly when one of the
  \<open>max_retries\<close> attempts succeeds, so the failed document alone does not make it an
  error. And a run of such a sender over any frame with the two columns returns its
  summary, when the configured delay is one that \<open>time.sleep\<close> accepts.
\<close>

theorem pdf_failure_is_not_fatal:
  assumes cfg: "config_ok (config self)"
    and mr: "map_of (cfg_settings (config self)) ''max_retries'' = Some m" and m: "1 \<le> m"
    and em: "map_of data ''email'' = Some to_email" and nm: "map_of data ''nombre'' = Some n"
    and gen: "pdf_generator self data = Inl e"
  shows "\<exists>ok st' subject html_body rest res.
     deliver_row self smtp data st = Inr (ok, st') \<and>
     (ERROR, ''Error generando PDF para '' @ to_email @ '': '' @ str_exn e) \<in> set (logged st') \<and>
     trace st' = trace st @ Send_email to_email subject html_body None ''documento.pdf'' # rest \<and>
     list_all (\<lambda>ef. ef = Sleep 2 \<or> ef = Send_email to_email subject html_body None ''documento.pdf'') rest \<and>
     ok = (\<exists>k<nat m. smtp (smtp_calls st + k) = None) \<and>
     results st' = results st @ [res] \<and> email res = to_email \<and>
     status res = (if ok then Exito else ''Error'') \<and>
     (\<forall>df preview_mode st0. dataframe_ok df \<and> delay_accepted (config self) \<longrightarrow>
        (\<exists>stats st1. send_bulk_emails self smtp df preview_mode st0 = Inr (stats, st1)))"
proof -
  from cfg obtain fn sj where fn: "map_of (cfg_email (config self)) ''from_name'' = Some fn"
    and sj: "map_of (cfg_email (config self)) ''subject'' = Some sj"
    by (rule config_okD)
  let ?entry = "(ERROR, ''Error generando PDF para '' @ to_email @ '': '' @ str_exn e)"
  let ?st1 = "st\<lparr>logged := logged st @ [?entry]\<rparr>"
  have gp: "generate_pdf self data st = Inr ((None, ''documento.pdf''), ?st1)"
    by (rule generate_pdf_fail[OF gen em])
  let ?d = "AList.update ''from_name'' fn data"
  let ?subject = "substitute ?d sj"
  let ?body = "substitute ?d (email_template self)"
  let ?send = "Send_email to_email ?subject ?body None ''documento.pdf''"
  let ?P = "\<lambda>ef. ef = Sleep 2 \<or> ef = ?send"
  have em1: "map_of ?d ''email'' = Some to_email" using em by (simp add: update_conv')
  have *: "\<exists>ok msg st2 k. attempts_loop smtp ?d ?subject ?body None ''documento.pdf'' m (py_range m)
          (False, None) ?st1 = Inr ((ok, msg), st2) \<and>
        trace st2 = trace st @ concat (replicate k [?send, Sleep 2]) @ [?send] \<and>
        results st2 = results st \<and> ok = (\<exists>k<nat m. smtp (smtp_calls st + k) = None)"
  proof (cases "\<exists>k<nat m. smtp (smtp_calls st + k) = None")
    case True
    define k where "k = (LEAST k. k < nat m \<and> smtp (smtp_calls st + k) = None)"
    from True have k: "k < nat m \<and> smtp (smtp_calls st + k) = None"
      unfolding k_def by (rule LeastI_ex)
    have fails: "\<forall>i<k. smtp (smtp_calls ?st1 + i) \<noteq> None"
    proof (intro allI impI)
      fix i assume "i < k"
      then have "\<not> (i < nat m \<and> smtp (smtp_calls st + i) = None)"
        unfolding k_def by (rule not_less_Least)
      with \<open>i < k\<close> k show "smtp (smtp_calls ?st1 + i) \<noteq> None" by simp
    qed
    have ok: "smtp (smtp_calls ?st1 + k) = None" using k by simp
    from attempts_first_success[where smtp=smtp and st="?st1", OF em1 _ fails ok,
        of m ?subject ?body None "''documento.pdf''" "(False, None)"] k
    obtain st2 where "attempts_loop smtp ?d ?subject ?body None ''documento.pdf'' m (py_range m)
          (False, None) ?st1 = Inr ((True, None), st2)"
      "trace st2 = trace ?st1 @ concat (replicate k [?send, Sleep 2]) @ [?send]"
      "results st2 = results ?st1"
      by blast
    with True show ?thesis by (intro exI[of _ True] exI[of _ None] exI[of _ st2] exI[of _ k]) simp
  next
    case False
    then have fails: "\<forall>i<nat m. smtp (smtp_calls ?st1 + i) \<noteq> None" by simp
    from attempts_all_fail[where smtp=smtp and st="?st1", OF em1 m fails,
        of ?subject ?body None "''documento.pdf''" "(False, None)"]
    obtain st2 e' where "attempts_loop smtp ?d ?subject ?body None ''documento.pdf'' m (py_range m)
          (False, None) ?st1 = Inr ((False, Some (error_detail e')), st2)"
      "trace st2 = trace ?st1 @ concat (replicate (nat m - 1) [?send, Sleep 2]) @ [?send]"
      "results st2 = results ?st1"
      by blast
    with False show ?thesis
      by (intro exI[of _ False] exI[of _ "Some (error_detail e')"] exI[of _ st2] exI[of _ "nat m - 1"]) simp
  qed
  then obtain ok msg st2 k where lp: "attempts_loop smtp ?d ?subject ?body None ''documento.pdf'' m (py_range m)
          (False, None) ?st1 = Inr ((ok, msg), st2)"
    and tr: "trace st2 = trace st @ concat (replicate k [?send, Sleep 2]) @ [?send]"
    and rs: "results st2 = results st"
    and ok: "ok = (\<exists>k<nat m. smtp (smtp_calls st + k) = None)"
    by blast
  let ?res = "\<lparr>email = to_email, nombre = n, status = (if ok then Exito else ''Error''),
                error = (if \<not> ok then msg else Some [])\<rparr>"
  let ?st' = "st2\<lparr>results := results st2 @ [?res]\<rparr>"
  have d: "deliver_row self smtp data st = Inr (ok, ?st')"
    by (rule deliver_row_eq[OF fn sj mr em nm gp lp])
  have "prefix (logged ?st1) (logged st2)"
    using attempts_loop_frame[OF lp] by simp
  then have lg: "?entry \<in> set (logged ?st')"
    by (auto simp: prefix_def)
  have tr': "trace ?st' = trace st @ ?send # concat (replicate k [Sleep 2, ?send])"
    using tr by (simp add: alternate_shift)
  have la: "list_all ?P (concat (replicate k [Sleep 2, ?send]))"
    by (rule list_all_alternate) simp_all
  have run: "\<forall>df preview_mode st0. dataframe_ok df \<and> delay_accepted (config self) \<longrightarrow>
        (\<exists>stats st1. send_bulk_emails self smtp df preview_mode st0 = Inr (stats, st1))"
    using send_bulk_emails_returns[OF cfg] by blast
  show ?thesis
    by (rule exI[of _ ok], rule exI[of _ ?st'], rule exI[of _ ?subject], rule exI[of _ ?body],
        rule exI[of _ "concat (replicate k [Sleep 2, ?send])"], rule exI[of _ ?res])
       (intro conjI d lg tr' la ok run, simp_all add: rs)
qed

theorem pdf_failure_is_not_fatal_witness:
  "\<exists>st' subject html_body rest res.
     deliver_row failing_sender (refuse_first 1) ana start = Inr (True, st') \<and>
     (ERROR, ''Error generando PDF para ana@x.co: bad markup'') \<in> set (logged st') \<and>
     trace st' = trace start @ Send_email ''ana@x.co'' subject html_body None ''documento.pdf'' # rest \<and>
     results st' = results start @ [res] \<and> status res = Exito \<and>
     run_value (send_bulk_emails failing_sender (refuse_first 1) valid_sheet False start) =
       Inr \<lparr>total = 2, success = 2, failed = 0\<rparr>"
proof -
  have c: "config_ok (config failing_sender)"
    by (simp add: config_ok_def failing_sender_def demo_sender_def demo_config_def)
  have mr: "map_of (cfg_settings (config failing_sender)) ''max_retries'' = Some 3"
    by (simp add: failing_sender_def demo_sender_def demo_config_def)
  have em: "map_of ana ''email'' = Some ''ana@x.co''" and nm: "map_of ana ''nombre'' = Some ''Ana''"
    by (simp_all add: ana_def)
  have gen: "pdf_generator failing_sender ana = Inl (Raised ValueError ''bad markup'')"
    by (simp add: failing_sender_def)
  have ok: "(\<exists>k<nat 3. refuse_first 1 (smtp_calls start + k) = None) = True"
    by (simp add: refuse_first_def start_def) (rule exI[of _ 1], simp)
  have rv: "run_value (send_bulk_emails failing_sender (refuse_first 1) valid_sheet False start) =
       Inr \<lparr>total = 2, success = 2, failed = 0\<rparr>"
    by code_simp
  from pdf_failure_is_not_fatal[OF c mr _ em nm gen, of "refuse_first 1" start]
  show ?thesis
    unfolding ok using rv by auto
qed

text \<open>
  Claim C1. Under a configuration with the keys a run reads, whose delay is one that
  \<open>time.sleep\<close> accepts (at most \<open>max_delay\<close> seconds), and a frame with the columns
  \<open>email\<close> and \<open>nombre\<close>, \<open>send_bulk_emails\<close> returns for every SMTP behaviour and
  every generator. It appends one result for each processed row (all rows, or the
  first in preview mode), in the order of the rows and carrying the \<open>email\<close> and
  \<open>nombre\<close> of its row; \<open>total\<close> is the number of processed rows, \<open>success\<close> and
  \<open>failed\<close> count the results of each status, and they add up to \<open>total\<close>.
\<close>

theorem send_bulk_emails_accounting:
  assumes cfg: "config_ok (config self)" and da: "delay_accepted (config self)"
    and df: "dataframe_ok df"
  shows "\<exists>stats st' new.
     send_bulk_emails self smtp df preview_mode st = Inr (stats, st') \<and>
     results st' = results st @ new \<and>
     length new = length (processed df preview_mode) \<and>
     map email new = map (\<lambda>r. field (columns df) (snd r) ''email'') (processed df preview_mode) \<and>
     map nombre new = map (\<lambda>r. field (columns df) (snd r) ''nombre'') (processed df preview_mode) \<and>
     total stats = int (length (processed df preview_mode)) \<and>
     success stats = int (length (filter (\<lambda>r. status r = Exito) new)) \<and>
     failed stats = int (length (filter (\<lambda>r. status r = ''Error'') new)) \<and>
     success stats + failed stats = total stats"
proof -
  let ?rs = "processed df preview_mode"
  let ?n = "int (length ?rs)"
  from df have cols: "''email'' \<in> set (columns df)" "''nombre'' \<in> set (columns df)"
    and "list_all (\<lambda>r. length (snd r) = length (columns df)) (rows df)"
    by (simp_all add: dataframe_ok_def)
  then have len: "list_all (\<lambda>r. length (snd r) = length (columns df)) ?rs"
    by (auto simp: processed_def list_all_iff dest: in_set_takeD)
  from send_loop_returns[OF cfg da cols len, of smtp ?n 0 0 st]
  obtain sc fc st' new where l: "send_loop self smtp (columns df) ?n ?rs (0, 0, st) = Inr (sc, fc, st')"
    and r: "results st' = results st @ new"
      "map email new = map (\<lambda>r. field (columns df) (snd r) ''email'') ?rs"
      "map nombre new = map (\<lambda>r. field (columns df) (snd r) ''nombre'') ?rs"
      "list_all (\<lambda>r. status r = Exito \<or> status r = ''Error'') new"
      "sc = 0 + int (length (filter (\<lambda>r. status r = Exito) new))"
      "fc = 0 + int (length (filter (\<lambda>r. status r \<noteq> Exito) new))"
    by blast
  let ?stats = "\<lparr>total = ?n, success = sc, failed = fc\<rparr>"
  have run: "send_bulk_emails self smtp df preview_mode st = Inr (?stats, st')"
    using l by (cases preview_mode) (simp_all add: send_bulk_emails_def processed_def Let_def)
  have ln: "length new = length ?rs"
    using arg_cong[OF r(2), of length] by simp
  have "filter (\<lambda>r. status r \<noteq> Exito) new = filter (\<lambda>r. status r = ''Error'') new"
    using r(4) Exito_not_Error by (intro filter_cong) (auto simp: list_all_iff)
  then have fc: "fc = int (length (filter (\<lambda>r. status r = ''Error'') new))"
    using r(6) by simp
  have sc: "sc = int (length (filter (\<lambda>r. status r = Exito) new))"
    using r(5) by simp
  have "length (filter (\<lambda>r. status r = Exito) new) + length (filter (\<lambda>r. status r \<noteq> Exito) new)
          = length new"
    by (rule sum_length_filter_compl)
  then have sum: "sc + fc = ?n"
    using r(5,6) ln by simp
  show ?thesis
    by (rule exI[of _ ?stats], rule exI[of _ st'], rule exI[of _ new])
       (use run r(1,2,3) ln sc fc sum in simp)
qed

theorem send_bulk_emails_accounting_witness:
  "(\<exists>stats st' new.
     send_bulk_emails demo_sender (refuse_first 4) valid_sheet False start = Inr (stats, st') \<and>
     results st' = results start @ new \<and>
     length new = length (processed valid_sheet False) \<and>
     total stats = int (length (processed valid_sheet False)) \<and>
     success stats + failed stats = total stats) \<and>
   run_value (send_bulk_emails demo_sender (refuse_first 4) valid_sheet False start) =
     Inr \<lparr>total = 2, success = 1, failed = 1\<rparr> \<and>
   run_value (send_bulk_emails demo_sender (refuse_first 4) valid_sheet True start) =
     Inr \<lparr>total = 1, success = 0, failed = 1\<rparr>"
proof (intro conjI)
  have df: "dataframe_ok valid_sheet"
    by (simp add: dataframe_ok_def valid_sheet_def read_excel_def)
  have da: "delay_accepted (config demo_sender)"
    by (simp add: delay_accepted_def demo_sender_def demo_config_def max_delay_def)
  from send_bulk_emails_accounting[OF demo_config_ok da df, of "refuse_first 4" False start]
  show "\<exists>stats st' new.
     send_bulk_emails demo_sender (refuse_first 4) valid_sheet False start = Inr (stats, st') \<and>
     results st' = results start @ new \<and>
     length new = length (processed valid_sheet False) \<and>
     total stats = int (length (processed valid_sheet False)) \<and>
     success stats + failed stats = total stats"
    by blast
  show "run_value (send_bulk_emails demo_sender (refuse_first 4) valid_sheet False start) =
     Inr \<lparr>total = 2, success = 1, failed = 1\<rparr>"
    by code_simp
  show "run_value (send_bulk_emails demo_sender (refuse_first 4) valid_sheet True start) =
     Inr \<lparr>total = 1, success = 0, failed = 1\<rparr>"
    by code_simp
qed

text \<open>
  With a delay that \<open>time.sleep\<close> refuses the run stops after the first recipient and
  returns no summary.
\<close>

lemma large_delay_raises:
  "run_value (send_bulk_emails slow_sender (refuse_first 0) valid_sheet False start) =
     Inl (Raised OverflowError ''timestamp too large to convert to C _PyTime_t'')"
  by code_simp

section \<open>The delay between recipients\<close>

text \<open>
  Claim C3 at a sheet whose first row is dropped by \<open>load_excel\<close>. The two rows that
  stay keep the labels 1 and 2, \<open>total\<close> is 2, and \<open>idx < total - 1\<close> is false for
  both: the run makes no wait between the two recipients, where the claim (and the
  comment of line 337) asks for one. On the same two rows with the labels 0 and 1 the
  wait is made.
\<close>

theorem delay_skipped_after_filtering:
  "load_excel demo_sheet =
     Inr \<lparr>columns = [''email'', ''nombre''],
          rows = [(1, [Some ''ana@x.co'', Some ''Ana'']), (2, [Some ''luis@x.co'', Some ''Luis''])]\<rparr> \<and>
   run_trace (send_bulk_emails demo_sender (refuse_first 0)
       \<lparr>columns = [''email'', ''nombre''],
        rows = [(1, [Some ''ana@x.co'', Some ''Ana'']), (2, [Some ''luis@x.co'', Some ''Luis''])]\<rparr>
       False start) =
     Inr [Send_email ''ana@x.co'' ''Hola Ana'' ''<p>Ana: Bob</p>'' (Some ''%PDF'') ''documento_Ana.pdf'',
          Send_email ''luis@x.co'' ''Hola Luis'' ''<p>Luis: Bob</p>'' (Some ''%PDF'') ''documento_Luis.pdf''] \<and>
   run_trace (send_bulk_emails demo_sender (refuse_first 0) valid_sheet False start) =
     Inr [Send_email ''ana@x.co'' ''Hola Ana'' ''<p>Ana: Bob</p>'' (Some ''%PDF'') ''documento_Ana.pdf'',
          Sleep 1,
          Send_email ''luis@x.co'' ''Hola Luis'' ''<p>Luis: Bob</p>'' (Some ''%PDF'') ''documento_Luis.pdf'']"
  by code_simp

section \<open>Substitution on a template cut into segments\<close>

declare py_replace.simps [simp del]

lemma placeholder_Cons: "placeholder k = CHR ''{'' # CHR ''{'' # k @ ''}}''"
  by (simp add: placeholder_def)

lemma py_replace_skip_char:
  "c \<noteq> CHR ''{'' \<Longrightarrow> py_replace (c # s) (placeholder k) v = c # py_replace s (placeholder k) v"
  by (simp add: py_replace.simps placeholder_Cons)

lemma py_replace_skip:
  "list_all (\<lambda>c. c \<noteq> CHR ''{'') x \<Longrightarrow>
   py_replace (x @ s) (placeholder k) v = x @ py_replace s (placeholder k) v"
  by (induction x) (simp_all add: py_replace_skip_char)

lemma py_replace_hit:
  "py_replace (placeholder k @ s) (placeholder k) v = v @ py_replace s (placeholder k) v"
proof -
  have "py_replace (CHR ''{'' # (CHR ''{'' # k @ ''}}'') @ s) (placeholder k) v =
        v @ py_replace (drop (length (placeholder k)) (CHR ''{'' # (CHR ''{'' # k @ ''}}'') @ s)) (placeholder k) v"
    by (subst py_replace.simps(2)) (simp add: placeholder_Cons)
  then show ?thesis
    by (simp add: placeholder_Cons)
qed

lemma plain_prefix_eq:
  "plain k \<Longrightarrow> plain k' \<Longrightarrow> prefix (k @ CHR ''}'' # x) (k' @ CHR ''}'' # y) \<Longrightarrow> k = k'"
proof (induction k arbitrary: k')
  case Nil
  then show ?case by (cases k') (auto simp: plain_def)
next
  case (Cons a k)
  then show ?case by (cases k') (auto simp: plain_def)
qed

lemma py_replace_miss:
  assumes "plain k" and "plain k'" and "k' \<noteq> k"
  shows "py_replace (placeholder k' @ s) (placeholder k) v = placeholder k' @ py_replace s (placeholder k) v"
proof -
  have no: "\<not> prefix (k @ ''}}'') (k' @ ''}}'' @ s)"
    using plain_prefix_eq[OF assms(1,2), of "''}''" "''}'' @ s"] assms(3) by auto
  have 1: "py_replace (CHR ''{'' # CHR ''{'' # k' @ ''}}'' @ s) (placeholder k) v =
           CHR ''{'' # py_replace (CHR ''{'' # k' @ ''}}'' @ s) (placeholder k) v"
    using no by (subst py_replace.simps(2)) (simp add: placeholder_Cons)
  have hd: "\<not> prefix (CHR ''{'' # k @ ''}}'') (k' @ ''}}'' @ s)"
    using assms(2) by (cases k') (auto simp: plain_def)
  have 2: "py_replace (CHR ''{'' # k' @ ''}}'' @ s) (placeholder k) v =
           CHR ''{'' # py_replace (k' @ ''}}'' @ s) (placeholder k) v"
    using hd by (subst py_replace.simps(2)) (simp add: placeholder_Cons)
  have "list_all (\<lambda>c. c \<noteq> CHR ''{'') (k' @ ''}}'')"
    using assms(2) by (auto simp: plain_def list_all_iff)
  from py_replace_skip[OF this, of s k v]
  have 3: "py_replace (k' @ ''}}'' @ s) (placeholder k) v = k' @ ''}}'' @ py_replace s (placeholder k) v"
    by simp
  show ?thesis
    using 1 2 3 by (simp add: placeholder_Cons)
qed

lemma flatten_simps:
  "flatten [] = []" "flatten (seg # segs) = seg_text seg @ flatten segs"
  "flatten (xs @ ys) = flatten xs @ flatten ys"
  by (simp_all add: flatten_def)

lemma flatten_Literals: "flatten (map Literal v) = v"
  by (induction v) (simp_all add: flatten_simps)

lemma subst_simps:
  "subst k v [] = []" "subst k v (seg # segs) = subst_seg k v seg @ subst k v segs"
  by (simp_all add: subst_def)

lemma py_replace_skip_open:
  assumes "\<not> prefix (CHR ''{'' # k @ ''}}'') s"
  shows "py_replace (CHR ''{'' # s) (placeholder k) v = CHR ''{'' # py_replace s (placeholder k) v"
  using assms by (subst py_replace.simps(2)) (simp add: placeholder_Cons)

text \<open>
  What the text of a template has to look like for a placeholder to start at a brace
  outside the placeholders.
\<close>

lemma prefix_second_close: "prefix ''}'' (flatten r) \<Longrightarrow> second_close r"
proof (cases r)
  case Nil
  assume "prefix ''}'' (flatten r)"
  with Nil show ?thesis by (simp add: flatten_simps)
next
  case (Cons seg r')
  assume "prefix ''}'' (flatten r)"
  with Cons show ?thesis
    by (cases seg) (simp_all add: flatten_simps placeholder_Cons)
qed

lemma prefix_closes_key:
  "plain k \<Longrightarrow> prefix (k @ ''}}'') (flatten r) \<Longrightarrow> closes_key r"
proof (induction r arbitrary: k)
  case Nil
  then show ?case by (simp add: flatten_simps)
next
  case (Cons seg r)
  show ?case
  proof (cases seg)
    case (Field k')
    with Cons.prems show ?thesis
      by (cases k) (simp_all add: flatten_simps placeholder_Cons plain_def)
  next
    case (Literal c)
    show ?thesis
    proof (cases k)
      case Nil
      with Cons.prems(2) Literal have c: "c = CHR ''}''" and "prefix ''}'' (flatten r)"
        by (auto simp: flatten_simps)
      from prefix_second_close[OF this(2)] c Literal show ?thesis by simp
    next
      case (Cons a k')
      with Cons.prems Literal have c: "c = a" "a \<noteq> CHR ''{''" "a \<noteq> CHR ''}''"
        and k': "plain k'" and p: "prefix (k' @ ''}}'') (flatten r)"
        by (simp_all add: flatten_simps plain_def)
      from Cons.IH[OF k' p] c Literal show ?thesis by simp
    qed
  qed
qed

lemma prefix_second_open:
  assumes "plain k" and "prefix (CHR ''{'' # k @ ''}}'') (flatten r)"
  shows "second_open r"
proof (cases r)
  case Nil
  with assms(2) show ?thesis by (simp add: flatten_simps)
next
  case (Cons seg r')
  show ?thesis
  proof (cases seg)
    case (Field k')
    with assms Cons show ?thesis
      by (cases k) (simp_all add: flatten_simps placeholder_Cons plain_def)
  next
    case (Literal c)
    with assms(2) Cons have c: "c = CHR ''{''" and "prefix (k @ ''}}'') (flatten r')"
      by (simp_all add: flatten_simps)
    from prefix_closes_key[OF assms(1) this(2)] c Literal Cons show ?thesis by simp
  qed
qed

lemma py_replace_flatten:
  assumes "plain k"
  shows "stable segs \<Longrightarrow>
         py_replace (flatten segs) (placeholder k) v = flatten (subst k v segs)"
proof (induction segs)
  case Nil
  show ?case by (simp add: flatten_simps subst_simps py_replace.simps placeholder_Cons)
next
  case (Cons seg segs)
  then have IH: "py_replace (flatten segs) (placeholder k) v = flatten (subst k v segs)"
    by (cases seg) simp_all
  show ?case
  proof (cases seg)
    case (Literal c)
    show ?thesis
    proof (cases "c = CHR ''{''")
      case False
      then show ?thesis
        by (simp add: Literal flatten_simps subst_simps py_replace_skip_char IH)
    next
      case True
      with Cons.prems Literal have "\<not> second_open segs" by simp
      with prefix_second_open[OF assms] have "\<not> prefix (CHR ''{'' # k @ ''}}'') (flatten segs)"
        by blast
      from py_replace_skip_open[OF this] show ?thesis
        by (simp add: Literal True flatten_simps subst_simps IH)
    qed
  next
    case (Field k')
    with Cons.prems have k': "plain k'" by simp
    show ?thesis
    proof (cases "k' = k")
      case True
      then show ?thesis
        by (simp add: Field flatten_simps subst_simps py_replace_hit IH flatten_Literals)
    next
      case False
      from py_replace_miss[OF assms k' False] show ?thesis
        by (simp add: Field False flatten_simps subst_simps IH)
    qed
  qed
qed

text \<open>
  Filling a placeholder with a value that has no brace makes no new placeholder: the
  template stays in the class.
\<close>

lemma second_close_Literals:
  "plain v \<Longrightarrow> second_close (map Literal v @ xs) \<Longrightarrow> second_close xs"
  by (cases v) (simp_all add: plain_def)

lemma closes_key_Literals:
  "plain v \<Longrightarrow> closes_key (map Literal v @ xs) = closes_key xs"
  by (induction v) (simp_all add: plain_def)

lemma second_open_Literals:
  "plain v \<Longrightarrow> second_open (map Literal v @ xs) \<Longrightarrow> second_open xs"
  by (cases v) (simp_all add: plain_def)

lemma stable_Literals:
  "plain v \<Longrightarrow> stable (map Literal v @ xs) = stable xs"
  by (induction v) (simp_all add: plain_def)

lemma subst_second_close:
  assumes "plain v"
  shows "second_close (subst k v r) \<Longrightarrow> second_close r"
proof (induction r)
  case Nil
  then show ?case by (simp add: subst_simps)
next
  case (Cons seg r)
  show ?case
  proof (cases seg)
    case (Literal c)
    with Cons.prems show ?thesis by (simp add: subst_simps)
  next
    case (Field k')
    show ?thesis
    proof (cases "k' = k")
      case True
      with Cons.prems Field have "second_close (map Literal v @ subst k v r)"
        by (simp add: subst_simps)
      from Cons.IH[OF second_close_Literals[OF assms this]] Field show ?thesis by simp
    next
      case False
      with Cons.prems Field have "second_close (subst k v r)" by (simp add: subst_simps)
      from Cons.IH[OF this] Field show ?thesis by simp
    qed
  qed
qed

lemma subst_closes_key:
  assumes "plain v"
  shows "closes_key (subst k v r) \<Longrightarrow> closes_key r"
proof (induction r)
  case Nil
  then show ?case by (simp add: subst_simps)
next
  case (Cons seg r)
  show ?case
  proof (cases seg)
    case (Literal c)
    with Cons.prems have c: "closes_key (Literal c # subst k v r)" by (simp add: subst_simps)
    show ?thesis
    proof (cases "c = CHR ''}''")
      case True
      with c have "second_close (subst k v r)" by simp
      from subst_second_close[OF assms this] True Literal show ?thesis by simp
    next
      case False
      with c have "c \<noteq> CHR ''{''" and "closes_key (subst k v r)"
        by (simp_all split: if_splits)
      from Cons.IH[OF this(2)] this(1) False Literal show ?thesis by simp
    qed
  next
    case (Field k')
    with Cons.prems have "closes_key (subst k v r)"
      by (cases "k' = k") (simp_all add: subst_simps closes_key_Literals[OF assms])
    from Cons.IH[OF this] Field show ?thesis by simp
  qed
qed

lemma subst_second_open:
  assumes "plain v"
  shows "second_open (subst k v r) \<Longrightarrow> second_open r"
proof (induction r)
  case Nil
  then show ?case by (simp add: subst_simps)
next
  case (Cons seg r)
  show ?case
  proof (cases seg)
    case (Literal c)
    with Cons.prems have "c = CHR ''{''" and "closes_key (subst k v r)"
      by (simp_all add: subst_simps)
    from subst_closes_key[OF assms this(2)] this(1) Literal show ?thesis by simp
  next
    case (Field k')
    show ?thesis
    proof (cases "k' = k")
      case True
      with Cons.prems Field have "second_open (map Literal v @ subst k v r)"
        by (simp add: subst_simps)
      from Cons.IH[OF second_open_Literals[OF assms this]] Field show ?thesis by simp
    next
      case False
      with Cons.prems Field have "second_open (subst k v r)" by (simp add: subst_simps)
      from Cons.IH[OF this] Field show ?thesis by simp
    qed
  qed
qed

lemma subst_stable:
  assumes "plain v"
  shows "stable segs \<Longrightarrow> stable (subst k v segs)"
proof (induction segs)
  case Nil
  show ?case by (simp add: subst_simps)
next
  case (Cons seg segs)
  show ?case
  proof (cases seg)
    case (Literal c)
    with Cons.prems have c: "c = CHR ''{'' \<longrightarrow> \<not> second_open segs" and "stable segs"
      by simp_all
    from Cons.IH[OF this(2)] c subst_second_open[OF assms, of k segs] Literal show ?thesis
      by (auto simp: subst_simps)
  next
    case (Field k')
    with Cons.prems have "plain k'" and "stable segs" by simp_all
    from Cons.IH[OF this(2)] this(1) Field show ?thesis
      by (simp add: subst_simps stable_Literals[OF assms])
  qed
qed

lemma substitute_flatten:
  "dict_plain d \<Longrightarrow> stable segs \<Longrightarrow>
   substitute d (flatten segs) = flatten (fold (\<lambda>(k, v). subst k v) d segs) \<and>
   stable (fold (\<lambda>(k, v). subst k v) d segs)"
proof (induction d arbitrary: segs)
  case Nil
  then show ?case by (simp add: substitute_def)
next
  case (Cons kv d)
  obtain k v where kv: "kv = (k, v)" by (cases kv)
  from Cons.prems(1) have k: "plain k" and v: "plain v" and d: "dict_plain d"
    by (simp_all add: dict_plain_def kv)
  have ok: "stable (subst k v segs)"
    by (rule subst_stable[OF v Cons.prems(2)])
  have "substitute (kv # d) (flatten segs) = substitute d (py_replace (flatten segs) (placeholder k) v)"
    by (simp add: substitute_def kv)
  also have "\<dots> = substitute d (flatten (subst k v segs))"
    by (simp add: py_replace_flatten[OF k Cons.prems(2)])
  finally show ?case
    using Cons.IH[OF d ok] by (simp add: kv)
qed

lemma fill_simps:
  "fill m [] = []" "fill m (seg # segs) = fill_seg m seg @ fill m segs"
  "fill m (xs @ ys) = fill m xs @ fill m ys"
  by (simp_all add: fill_def)

lemma fill_Literals: "fill m (map Literal v) = v"
  by (induction v) (simp_all add: fill_simps)

lemma fill_subst: "fill m (subst k v segs) = fill (m(k \<mapsto> v)) segs"
proof (induction segs)
  case Nil
  show ?case by (simp add: fill_simps subst_simps)
next
  case (Cons seg segs)
  then show ?case
    by (cases seg) (simp_all add: fill_simps subst_simps fill_Literals)
qed

lemma fill_empty: "fill Map.empty segs = flatten segs"
  by (induction segs) (simp_all add: fill_simps flatten_simps, case_tac a, simp_all)

lemma fill_fold: "flatten (fold (\<lambda>(k, v). subst k v) d segs) = fill (map_of d) segs"
proof (induction d arbitrary: segs)
  case Nil
  show ?case by (simp add: fill_empty)
next
  case (Cons kv d)
  obtain k v where kv: "kv = (k, v)" by (cases kv)
  have m: "(map_of d)(k \<mapsto> v) = map_of (kv # d)" by (simp add: kv)
  have "flatten (fold (\<lambda>(k, v). subst k v) (kv # d) segs) =
        flatten (fold (\<lambda>(k, v). subst k v) d (subst k v segs))"
    by (simp add: kv)
  also have "\<dots> = fill (map_of d) (subst k v segs)" by (rule Cons.IH)
  also have "\<dots> = fill ((map_of d)(k \<mapsto> v)) segs" by (rule fill_subst)
  finally show ?case unfolding m .
qed

text \<open>The loop of \<open>substitute\<close> on such a template fills every placeholder at once.\<close>

lemma substitute_fill:
  "dict_plain d \<Longrightarrow> stable segs \<Longrightarrow> substitute d (flatten segs) = fill (map_of d) segs"
  using substitute_flatten[of d segs] by (simp add: fill_fold)

lemma set_update_subset: "set (AList.update k v al) \<subseteq> insert (k, v) (set al)"
  by (induction al) auto

lemma dict_plain_update:
  assumes "dict_plain d" and "plain k" and "plain v"
  shows "dict_plain (AList.update k v d)"
  using assms set_update_subset[of k v d]
  by (auto simp: dict_plain_def list_all_iff)

lemma render_template_fill:
  assumes fn: "map_of (cfg_email cfg) ''from_name'' = Some fn" and pfn: "plain fn"
    and d: "dict_plain data" and segs: "stable segs"
  shows "render_template cfg (flatten segs) data =
           Inr (fill ((map_of data)(''from_name'' \<mapsto> fn)) segs, AList.update ''from_name'' fn data)"
proof -
  have "plain ''from_name''" by (simp add: plain_def)
  from dict_plain_update[OF d this pfn]
  have "substitute (AList.update ''from_name'' fn data) (flatten segs) =
        fill (map_of (AList.update ''from_name'' fn data)) segs"
    using segs by (rule substitute_fill)
  then show ?thesis
    by (simp add: render_template_ok[OF fn] update_conv')
qed

section \<open>What rendering does to a template\<close>

text \<open>
  Claim C7, as the code has it. Take a template cut into characters and placeholders
  \<open>{{key}}\<close> with keys free of braces. The characters outside the placeholders may
  be braces, as in a style sheet; what they must not do is put a further pair of
  double braces around placeholders or text without braces (\<open>stable\<close>). Take a
  dictionary whose keys and values have no brace, and a configured \<open>from_name\<close> without
  braces. Then rendering returns the template with every placeholder of a key of the
  dictionary replaced by the value of the key, where \<open>from_name\<close> always has the
  configured value; keys that the template does not use change nothing, and a
  placeholder of any other key stays as it is. The two examples of the claim hold for
  every configured \<open>from_name\<close>.
\<close>

theorem render_template_fills_placeholders:
  assumes "map_of (cfg_email cfg) ''from_name'' = Some fn"
  shows "(plain fn \<and> dict_plain data \<and> stable segs \<longrightarrow>
            render_template cfg (flatten segs) data =
              Inr (fill ((map_of data)(''from_name'' \<mapsto> fn)) segs,
                   AList.update ''from_name'' fn data)) \<and>
         render_template cfg ''Hello {{name}}'' [(''name'', ''Ana'')] =
           Inr (''Hello Ana'', [(''name'', ''Ana''), (''from_name'', fn)]) \<and>
         render_template cfg ''{{missing}}'' [] = Inr (''{{missing}}'', [(''from_name'', fn)])"
proof (intro conjI impI)
  assume "plain fn \<and> dict_plain data \<and> stable segs"
  then show "render_template cfg (flatten segs) data =
              Inr (fill ((map_of data)(''from_name'' \<mapsto> fn)) segs,
                   AList.update ''from_name'' fn data)"
    using render_template_fill[OF assms] by blast
next
  show "render_template cfg ''Hello {{name}}'' [(''name'', ''Ana'')] =
           Inr (''Hello Ana'', [(''name'', ''Ana''), (''from_name'', fn)])"
    by (simp add: render_template_ok[OF assms] substitute_def placeholder_def py_replace.simps)
  show "render_template cfg ''{{missing}}'' [] = Inr (''{{missing}}'', [(''from_name'', fn)])"
    by (simp add: render_template_ok[OF assms] substitute_def placeholder_def py_replace.simps)
qed

theorem render_template_fills_placeholders_witness:
  "render_template demo_config ''<b style={x}>Hi {{nombre}}{{missing}}{{</b>''
       [(''nombre'', ''Ana''), (''ciudad'', ''Lima'')] =
     Inr (''<b style={x}>Hi Ana{{missing}}{{</b>'',
          [(''nombre'', ''Ana''), (''ciudad'', ''Lima''), (''from_name'', ''Bob'')]) \<and>
   render_template demo_config ''Hello {{name}}'' [(''name'', ''Ana'')] =
     Inr (''Hello Ana'', [(''name'', ''Ana''), (''from_name'', ''Bob'')]) \<and>
   render_template demo_config ''{{missing}}'' [] = Inr (''{{missing}}'', [(''from_name'', ''Bob'')])"
proof -
  have fn: "map_of (cfg_email demo_config) ''from_name'' = Some ''Bob''"
    by (simp add: demo_config_def)
  have h: "plain ''Bob'' \<and> dict_plain [(''nombre'', ''Ana''), (''ciudad'', ''Lima'')] \<and>
           stable (map Literal ''<b style={x}>Hi '' @ [Field ''nombre'', Field ''missing''] @
                   map Literal ''{{</b>'')"
    by code_simp
  have fl: "flatten (map Literal ''<b style={x}>Hi '' @ [Field ''nombre'', Field ''missing''] @
                   map Literal ''{{</b>'') = ''<b style={x}>Hi {{nombre}}{{missing}}{{</b>''"
    by code_simp
  have fi: "fill ((map_of [(''nombre'', ''Ana''), (''ciudad'', ''Lima'')])(''from_name'' \<mapsto> ''Bob''))
              (map Literal ''<b style={x}>Hi '' @ [Field ''nombre'', Field ''missing''] @
                   map Literal ''{{</b>'') = ''<b style={x}>Hi Ana{{missing}}{{</b>''"
    by (simp add: fill_def placeholder_def)
  from render_template_fills_placeholders[OF fn,
      of "[(''nombre'', ''Ana''), (''ciudad'', ''Lima'')]"
         "map Literal ''<b style={x}>Hi '' @ [Field ''nombre'', Field ''missing''] @
                   map Literal ''{{</b>''"] h
  show ?thesis
    unfolding fl fi by simp
qed

text \<open>
  Against C7 as stated: the field \<open>empresa\<close> is not referenced in the template
  \<open>{{nombre}}\<close>, and yet the output depends on it, because the value of \<open>nombre\<close> is
  itself scanned by the later replacements; and the placeholder \<open>{{from_name}}\<close> is
  replaced though the dictionary has no such field.
\<close>

theorem render_template_counterexample:
  "render_template demo_config ''{{nombre}}'' [(''nombre'', ''{{empresa}}''), (''empresa'', ''ACME'')] =
     Inr (''ACME'', [(''nombre'', ''{{empresa}}''), (''empresa'', ''ACME''), (''from_name'', ''Bob'')]) \<and>
   render_template demo_config ''{{nombre}}'' [(''nombre'', ''{{empresa}}'')] =
     Inr (''{{empresa}}'', [(''nombre'', ''{{empresa}}''), (''from_name'', ''Bob'')]) \<and>
   render_template demo_config ''{{from_name}}'' [] = Inr (''Bob'', [(''from_name'', ''Bob'')])"
  by code_simp

section \<open>The order of the substitutions\<close>

text \<open>
  Claim C6, as the code has it. Take a template cut into characters and placeholders
  \<open>{{key}}\<close> with keys free of braces, whose characters outside the placeholders may
  be braces but put no further pair of double braces around placeholders or text
  without braces (\<open>stable\<close>), a configured \<open>from_name\<close> without braces, and two
  dictionaries with the same pairs in different orders whose keys and values have no
  brace. Then rendering gives the same string for both.
\<close>

theorem render_template_order_independent:
  assumes fn: "map_of (cfg_email cfg) ''from_name'' = Some fn" and pfn: "plain fn"
    and segs: "stable segs"
    and d1: "dict_plain d1" "distinct (map fst d1)"
    and d2: "distinct (map fst d2)" "set d2 = set d1"
  shows "\<exists>rendered.
           render_template cfg (flatten segs) d1 = Inr (rendered, AList.update ''from_name'' fn d1) \<and>
           render_template cfg (flatten segs) d2 = Inr (rendered, AList.update ''from_name'' fn d2)"
proof -
  have p2: "dict_plain d2"
    using d1(1) d2(2) by (simp add: dict_plain_def list_all_iff)
  have m: "map_of d2 = map_of d1"
    using d1(2) d2 by (simp add: map_of_inject_set)
  show ?thesis
    using render_template_fill[OF fn pfn d1(1) segs] render_template_fill[OF fn pfn p2 segs]
    by (simp add: m)
qed

theorem render_template_order_independent_witness:
  "render_template demo_config ''<style>p{color:red}</style>{{ciudad}}-{{nombre}}''
       [(''nombre'', ''Ana''), (''ciudad'', ''Lima'')] =
     Inr (''<style>p{color:red}</style>Lima-Ana'',
          [(''nombre'', ''Ana''), (''ciudad'', ''Lima''), (''from_name'', ''Bob'')]) \<and>
   render_template demo_config ''<style>p{color:red}</style>{{ciudad}}-{{nombre}}''
       [(''ciudad'', ''Lima''), (''nombre'', ''Ana'')] =
     Inr (''<style>p{color:red}</style>Lima-Ana'',
          [(''ciudad'', ''Lima''), (''nombre'', ''Ana''), (''from_name'', ''Bob'')])"
proof -
  have fn: "map_of (cfg_email demo_config) ''from_name'' = Some ''Bob''"
    by (simp add: demo_config_def)
  have r1: "render_template demo_config ''<style>p{color:red}</style>{{ciudad}}-{{nombre}}''
       [(''nombre'', ''Ana''), (''ciudad'', ''Lima'')] =
     Inr (''<style>p{color:red}</style>Lima-Ana'',
          [(''nombre'', ''Ana''), (''ciudad'', ''Lima''), (''from_name'', ''Bob'')])"
    by code_simp
  have fl: "flatten styled_template = ''<style>p{color:red}</style>{{ciudad}}-{{nombre}}''"
    by code_simp
  have st: "stable styled_template" by code_simp
  have pl: "plain ''Bob''" "dict_plain [(''nombre'', ''Ana''), (''ciudad'', ''Lima'')]"
    by (simp_all add: plain_def dict_plain_def)
  from render_template_order_independent[OF fn pl(1) st pl(2),
      of "[(''ciudad'', ''Lima''), (''nombre'', ''Ana'')]"]
  obtain rendered where
    "render_template demo_config ''<style>p{color:red}</style>{{ciudad}}-{{nombre}}''
       [(''nombre'', ''Ana''), (''ciudad'', ''Lima'')] =
       Inr (rendered, AList.update ''from_name'' ''Bob'' [(''nombre'', ''Ana''), (''ciudad'', ''Lima'')])"
    "render_template demo_config ''<style>p{color:red}</style>{{ciudad}}-{{nombre}}''
       [(''ciudad'', ''Lima''), (''nombre'', ''Ana'')] =
       Inr (rendered, AList.update ''from_name'' ''Bob'' [(''ciudad'', ''Lima''), (''nombre'', ''Ana'')])"
    unfolding fl by auto
  with r1 show ?thesis by simp
qed

text \<open>
  Against C6 as stated: the same template and the same two fields in the two orders
  give \<open>X\<close> and \<open>{{b}}\<close>, because the value of \<open>a\<close> is a placeholder of \<open>b\<close>.
\<close>

theorem order_counterexample:
  "render_template demo_config ''{{a}}'' [(''a'', ''{{b}}''), (''b'', ''X'')] =
     Inr (''X'', [(''a'', ''{{b}}''), (''b'', ''X''), (''from_name'', ''Bob'')]) \<and>
   render_template demo_config ''{{a}}'' [(''b'', ''X''), (''a'', ''{{b}}'')] =
     Inr (''{{b}}'', [(''b'', ''X''), (''a'', ''{{b}}''), (''from_name'', ''Bob'')])"
  by code_simp

section \<open>The address pattern\<close>

lemma local_char_not_at: "local_char c \<Longrightarrow> c \<noteq> CHR ''@''"
proof
  assume "local_char c" and "c = CHR ''@''"
  then have "local_char CHR ''@''" by simp
  then show False by code_simp
qed

lemma alpha_not_dot: "alpha c \<Longrightarrow> c \<noteq> CHR ''.''"
proof
  assume "alpha c" and "c = CHR ''.''"
  then have "alpha CHR ''.''" by simp
  then show False by code_simp
qed

lemma takeWhile_split:
  assumes "length (takeWhile P xs) < length xs"
  shows "\<exists>x ys. xs = takeWhile P xs @ x # ys \<and> \<not> P x"
proof -
  have "dropWhile P xs \<noteq> []"
  proof
    assume "dropWhile P xs = []"
    then have "takeWhile P xs = xs" using takeWhile_dropWhile_id[of P xs] by simp
    with assms show False by simp
  qed
  then obtain x ys where d: "dropWhile P xs = x # ys" by (cases "dropWhile P xs") auto
  then have "\<not> P x" using hd_dropWhile[of P xs] by simp
  moreover have "xs = takeWhile P xs @ x # ys"
    using takeWhile_dropWhile_id[of P xs] d by simp
  ultimately show ?thesis by blast
qed

lemma full_match_iff: "full_match s \<longleftrightarrow> pattern_says s"
proof
  assume fm: "full_match s"
  define lp where "lp = takeWhile (\<lambda>c. c \<noteq> CHR ''@'') s"
  define rest where "rest = drop (Suc (length lp)) s"
  define rt where "rt = takeWhile (\<lambda>c. c \<noteq> CHR ''.'') (rev rest)"
  define dp where "dp = take (length rest - Suc (length (rev rt))) rest"
  from fm have c: "length lp < length s" "length (rev rt) < length rest"
    "lp \<noteq> []" "list_all local_char lp" "dp \<noteq> []" "list_all domain_char dp"
    "2 \<le> length (rev rt)" "list_all alpha (rev rt)"
    unfolding full_match_def Let_def lp_def rest_def rt_def dp_def by blast+
  from takeWhile_split[of "\<lambda>c. c \<noteq> CHR ''@''" s] c(1)
  obtain x ys where s: "s = lp @ x # ys" and x: "x = CHR ''@''"
    unfolding lp_def by auto
  have rest: "rest = ys"
    unfolding rest_def by (subst s) simp
  from c(2) have "length rt < length (rev rest)" by simp
  with takeWhile_split[of "\<lambda>c. c \<noteq> CHR ''.''" "rev rest"]
  obtain y zs where r: "rev rest = rt @ y # zs" and y: "y = CHR ''.''"
    unfolding rt_def by auto
  have "rest = rev (rt @ y # zs)"
    using arg_cong[OF r, of rev] by simp
  then have rest': "rest = rev zs @ CHR ''.'' # rev rt"
    by (simp add: y)
  have dp: "dp = rev zs"
    unfolding dp_def by (subst (1 2) rest') simp
  have "s = lp @ ''@'' @ rev zs @ ''.'' @ rev rt"
    by (subst s) (simp add: x rest[symmetric] rest')
  with c dp show "pattern_says s"
    unfolding pattern_says_def
    by (intro exI[of _ lp] exI[of _ "rev zs"] exI[of _ "rev rt"]) simp
next
  assume "pattern_says s"
  then obtain lp dp tld where s: "s = lp @ ''@'' @ dp @ ''.'' @ tld"
    and c: "lp \<noteq> []" "list_all local_char lp" "dp \<noteq> []" "list_all domain_char dp"
      "2 \<le> length tld" "list_all alpha tld"
    unfolding pattern_says_def by blast
  have lp: "takeWhile (\<lambda>c. c \<noteq> CHR ''@'') s = lp"
  proof -
    have "\<forall>c\<in>set lp. c \<noteq> CHR ''@''" using c(2) local_char_not_at by (auto simp: list_all_iff)
    then show ?thesis by (simp add: s takeWhile_tail)
  qed
  have rest: "drop (Suc (length lp)) s = dp @ ''.'' @ tld"
    by (simp add: s)
  have tld: "rev (takeWhile (\<lambda>c. c \<noteq> CHR ''.'') (rev (dp @ ''.'' @ tld))) = tld"
  proof -
    have "\<forall>c\<in>set (rev tld). c \<noteq> CHR ''.''" using c(6) alpha_not_dot by (auto simp: list_all_iff)
    then have "takeWhile (\<lambda>c. c \<noteq> CHR ''.'') (rev tld @ CHR ''.'' # rev dp) = rev tld"
      by (simp add: takeWhile_tail)
    then show ?thesis by simp
  qed
  show "full_match s"
    unfolding full_match_def Let_def lp rest tld
    using c by (simp add: s)
qed

text \<open>The addresses of the specification's examples.\<close>

lemma address_examples:
  "email_match ''user@example.com'' \<and> \<not> email_match ''not-an-email'' \<and>
   \<not> email_match ''user@'' \<and> \<not> email_match ''user@domain''"
  by code_simp

end
